theory Spec2Isabelle
  imports Complex_Main "HOL-Library.Word" "HOL-Library.Char_ord" "HOL-Library.List_Lexorder"
begin

unbundle bit_operations_syntax

text \<open>
  A shallow embedding of the ghost-job analysis pipeline: the scoring aggregator and the
  cadence analyzer (\<^verbatim>\<open>app/scoring/score.ts\<close>), the hashing primitives and snapshot
  helpers (\<^verbatim>\<open>app/db/jobSnapshots\<close>), the admission controller and the storage functions
  (\<^verbatim>\<open>utils/supabase/action\<close>) and the persistence steps of the orchestrator
  (\<^verbatim>\<open>app/orchestrator/analyzeJob.ts\<close>). The definitions come first, in the order of
  the pipeline; the properties proved about them follow.
\<close>

section \<open>Numbers\<close>

text \<open>
  A JavaScript \<^verbatim>\<open>number\<close> is a real or one of the three values that are not finite.
  Decimal literals of the source are the rationals they denote.

  The result of an arithmetic operation is the exact result brought into the range of
  the doubles (\<open>to_double\<close>): at or beyond \<open>2^1024 - 2^970\<close> in magnitude it is an infinity;
  below the smallest normal double \<open>2^-1022\<close> it is rounded to the nearest multiple of
  \<open>2^-1074\<close>, ties to even, so that a small enough product is 0; in between it is taken
  as it is: the rounding to 53 significant bits is not modelled, nor is the sign of zero.
\<close>

datatype number = Finite real | PosInfinity | NegInfinity | NaN

definition overflow_threshold :: real where
  "overflow_threshold = 2 ^ 1024 - 2 ^ 970"

definition min_normal :: real where
  "min_normal = 1 / 2 ^ 1022"

definition round_half_even :: "real \<Rightarrow> int" where
  "round_half_even y =
     (let f = \<lfloor>y\<rfloor> in
      if y - of_int f < 1 / 2 then f
      else if y - of_int f > 1 / 2 then f + 1
      else if even f then f else f + 1)"

definition to_double :: "real \<Rightarrow> number" where
  "to_double x =
     (if overflow_threshold \<le> \<bar>x\<bar> then (if 0 < x then PosInfinity else NegInfinity)
      else if \<bar>x\<bar> < min_normal
        then Finite (of_int (round_half_even (x * 2 ^ 1074)) / 2 ^ 1074)
      else Finite x)"

text \<open>The operators \<^verbatim>\<open>+\<close>, \<^verbatim>\<open>*\<close>, \<^verbatim>\<open>/\<close> and \<^verbatim>\<open>>\<close> on numbers.\<close>

fun js_add :: "number \<Rightarrow> number \<Rightarrow> number" where
  "js_add (Finite a) (Finite b) = to_double (a + b)"
| "js_add NaN _ = NaN"
| "js_add _ NaN = NaN"
| "js_add PosInfinity NegInfinity = NaN"
| "js_add NegInfinity PosInfinity = NaN"
| "js_add PosInfinity _ = PosInfinity"
| "js_add _ PosInfinity = PosInfinity"
| "js_add NegInfinity _ = NegInfinity"
| "js_add _ NegInfinity = NegInfinity"

fun js_mul :: "number \<Rightarrow> number \<Rightarrow> number" where
  "js_mul (Finite a) (Finite b) = to_double (a * b)"
| "js_mul NaN _ = NaN"
| "js_mul _ NaN = NaN"
| "js_mul PosInfinity (Finite b) =
     (if b = 0 then NaN else if 0 < b then PosInfinity else NegInfinity)"
| "js_mul NegInfinity (Finite b) =
     (if b = 0 then NaN else if 0 < b then NegInfinity else PosInfinity)"
| "js_mul (Finite a) PosInfinity =
     (if a = 0 then NaN else if 0 < a then PosInfinity else NegInfinity)"
| "js_mul (Finite a) NegInfinity =
     (if a = 0 then NaN else if 0 < a then NegInfinity else PosInfinity)"
| "js_mul PosInfinity PosInfinity = PosInfinity"
| "js_mul PosInfinity NegInfinity = NegInfinity"
| "js_mul NegInfinity PosInfinity = NegInfinity"
| "js_mul NegInfinity NegInfinity = PosInfinity"



text \<open>\<^verbatim>\<open>clamp01\<close> (score.ts, lines 104-109).\<close>

fun clamp01 :: "number \<Rightarrow> real" where
  "clamp01 NaN = 0"
| "clamp01 PosInfinity = 0"
| "clamp01 NegInfinity = 0"
| "clamp01 (Finite x) = (if x < 0 then 0 else if x > 1 then 1 else x)"

section \<open>Scoring aggregator (score.ts)\<close>

text \<open>
  A JavaScript object used as a dictionary is an association list in key order;
  \<^verbatim>\<open>Object.keys\<close> lists the keys and \<^verbatim>\<open>o[k]\<close> looks one up
  (\<^verbatim>\<open>undefined\<close> is \<open>None\<close>).
\<close>

type_synonym 'v js_object = "(string \<times> 'v) list"

definition Object_keys :: "'v js_object \<Rightarrow> string list" where
  "Object_keys obj = map fst obj"

definition js_get :: "'v js_object \<Rightarrow> string \<Rightarrow> 'v option" where
  "js_get obj k = map_of obj k"

text \<open>\<^verbatim>\<open>DEFAULT_WEIGHTS\<close> (score.ts, lines 85-97). Weights are finite numbers.\<close>

definition DEFAULT_WEIGHTS :: "real js_object" where
  "DEFAULT_WEIGHTS =
    [(''freshness'', 0.16),
     (''link_integrity'', 0.09),
     (''salary_disclosure'', 0.21),
     (''salary_min_present'', 0.13),
     (''source_credibility'', 0.09),
     (''skills_present'', 0.09),
     (''buzzword_penalty'', 0.04),
     (''comp_period_clarity'', 0.04),
     (''update_cadence'', 0.05),
     (''content_change_quality'', 0.05)]"

text \<open>
  The spread \<^verbatim>\<open>{ ...DEFAULT_WEIGHTS, ...weights }\<close> followed by the lookup
  \<^verbatim>\<open>(w as any)[k]\<close>: a key of \<^verbatim>\<open>weights\<close> overrides the default.
\<close>

definition merged_weight :: "real js_object \<Rightarrow> string \<Rightarrow> real option" where
  "merged_weight weights k =
     (case js_get weights k of
        Some x \<Rightarrow> Some x
      | None \<Rightarrow> js_get DEFAULT_WEIGHTS k)"

text \<open>
  The value \<^verbatim>\<open>clamp01(breakdown[k])\<close>; a missing entry is \<^verbatim>\<open>undefined\<close>, which is not
  finite either.
\<close>

definition clamped_value :: "number js_object \<Rightarrow> string \<Rightarrow> real" where
  "clamped_value breakdown k =
     clamp01 (case js_get breakdown k of Some v \<Rightarrow> v | None \<Rightarrow> NaN)"

text \<open>
  The \<^verbatim>\<open>for (const k of keys)\<close> loop of \<^verbatim>\<open>finalizeScore\<close> (lines 400-407), threading
  the pair \<open>(sumW, sumV)\<close> (\<^verbatim>\<open>sum\<close> in the source).
\<close>

fun weigh_keys ::
  "(string \<Rightarrow> real option) \<Rightarrow> (string \<Rightarrow> real) \<Rightarrow> string list \<Rightarrow> number \<times> number
     \<Rightarrow> number \<times> number"
where
  "weigh_keys w val [] (sumW, sumV) = (sumW, sumV)"
| "weigh_keys w val (k # ks) (sumW, sumV) =
     (case w k of
        Some weight \<Rightarrow>
          if weight > 0
          then weigh_keys w val ks
                 (js_add sumW (Finite weight),
                  js_add sumV (js_mul (Finite weight) (Finite (val k))))
          else weigh_keys w val ks (sumW, sumV)
      | None \<Rightarrow> weigh_keys w val ks (sumW, sumV))"


text \<open>The sum of the weights that \<^verbatim>\<open>finalizeScore\<close> uses for a breakdown (\<^verbatim>\<open>sumW\<close>).\<close>

definition weights_used :: "number js_object \<Rightarrow> real js_object \<Rightarrow> number" where
  "weights_used breakdown weights =
     fst (weigh_keys (merged_weight weights) (clamped_value breakdown) (Object_keys breakdown)
            (Finite 0, Finite 0))"

subsection \<open>The aggregate as the specification words it\<close>

text \<open>
  The weight of a signal is the caller's entry where the table has one, the default
  otherwise, and 0 for a signal neither table knows. The value of a signal is its entry
  clamped to the unit interval, 0 where the entry is not finite. The weighted signals are
  those present in the breakdown with a positive weight.
\<close>

definition table_weight :: "real js_object \<Rightarrow> string \<Rightarrow> real" where
  "table_weight weights k =
     (case map_of weights k of
        Some x \<Rightarrow> x
      | None \<Rightarrow> (case map_of DEFAULT_WEIGHTS k of Some d \<Rightarrow> d | None \<Rightarrow> 0))"






text \<open>
  A real that double arithmetic yields as it is (up to the rounding left out): 0, or a
  magnitude from the smallest normal double up to the overflow threshold.
\<close>

definition in_normal_range :: "real \<Rightarrow> bool" where
  "in_normal_range x = (x = 0 \<or> (min_normal \<le> \<bar>x\<bar> \<and> \<bar>x\<bar> < overflow_threshold))"

section \<open>Cadence analyzer (score.ts, featureUpdateCadence)\<close>

text \<open>
  \<^verbatim>\<open>new Date(ts).getTime()\<close> is a parameter \<open>getTime\<close>: the milliseconds since the epoch,
  or \<open>None\<close> for \<^verbatim>\<open>NaN\<close> (an invalid date), which
  \<^verbatim>\<open>.filter(ts => Number.isFinite(ts))\<close> drops.

  The loop over \<^verbatim>\<open>i = 1 .. sorted.length - 1\<close> (lines 263-267) pushes the distance in days
  between each element and its predecessor.
\<close>

fun consecutive_days :: "int list \<Rightarrow> real list" where
  "consecutive_days (a # b # rest) =
     (real_of_int (b - a) / (1000 * 60 * 60 * 24)) # consecutive_days (b # rest)"
| "consecutive_days _ = []"

text \<open>\<^verbatim>\<open>featureUpdateCadence\<close> (lines 247-294).\<close>

definition featureUpdateCadence :: "(string \<Rightarrow> int option) \<Rightarrow> string list option \<Rightarrow> real" where
  "featureUpdateCadence getTime updateTimestamps =
     (case updateTimestamps of
        None \<Rightarrow> 0.5
      | Some tss \<Rightarrow>
          if length tss < 4 then 0.5
          else
            let sorted_ts = sort (List.map_filter getTime tss) in
            if length sorted_ts < 4 then 0.5
            else
              let intervals = consecutive_days sorted_ts in
              if length intervals = 0 then 0.5
              else
                let mean = foldl (\<lambda>s v. s + v) 0 intervals / real (length intervals);
                    variance = foldl (\<lambda>s v. s + (v - mean)\<^sup>2) 0 intervals
                                 / real (length intervals);
                    stdDev = sqrt variance;
                    coefficientOfVariation = (if mean > 0 then stdDev / mean else 0)
                in if coefficientOfVariation < 0.2 then 0.0
                   else if coefficientOfVariation > 0.5 then 1.0
                   else clamp01 (Finite ((coefficientOfVariation - 0.2) / (0.5 - 0.2))))"

subsection \<open>The cadence score as the specification words it\<close>

text \<open>
  The valid timestamps of a list, the inter-arrival intervals in days of the ascending
  sort, their mean, (population) standard deviation and coefficient of variation. Where
  the mean is 0 (all timestamps coincide) the quotient is undefined and the coefficient is
  taken to be 0.
\<close>

definition valid_timestamps :: "(string \<Rightarrow> int option) \<Rightarrow> string list \<Rightarrow> int list" where
  "valid_timestamps getTime tss = [t. Some t \<leftarrow> map getTime tss]"

definition ms_per_day :: int where
  "ms_per_day = 86400000"

definition inter_arrival_days :: "int list \<Rightarrow> real list" where
  "inter_arrival_days ts =
     (let s = sort ts
      in map (\<lambda>i. real_of_int (s ! Suc i - s ! i) / real_of_int ms_per_day) [0..<length s - 1])"

definition mean_of :: "real list \<Rightarrow> real" where
  "mean_of xs = sum_list xs / real (length xs)"

definition stddev_of :: "real list \<Rightarrow> real" where
  "stddev_of xs = sqrt (sum_list (map (\<lambda>x. (x - mean_of xs)\<^sup>2) xs) / real (length xs))"

definition coefficient_of_variation :: "real list \<Rightarrow> real" where
  "coefficient_of_variation xs = (if mean_of xs = 0 then 0 else stddev_of xs / mean_of xs)"

definition cadence_score :: "real \<Rightarrow> real" where
  "cadence_score cv =
     (if cv < 0.2 then 0 else if cv > 0.5 then 1 else max 0 (min 1 ((cv - 0.2) / 0.3)))"

section \<open>Fingerprint comparison (jobSnapshots: simhashHammingDistance, isSimhashChangeSignificant)\<close>

text \<open>
  Text is a list of ASCII characters. White space is what \<^verbatim>\<open>trim\<close>, \<^verbatim>\<open>\s\<close> and the
  \<^verbatim>\<open>BigInt\<close> parser skip: tab, line feed, vertical tab, form feed, carriage return and
  space.
\<close>

definition is_space :: "char \<Rightarrow> bool" where
  "is_space c = (c \<in> set [CHR 0x09, CHR 0x0A, CHR 0x0B, CHR 0x0C, CHR 0x0D, CHR 0x20])"

definition trim :: "string \<Rightarrow> string" where
  "trim s = rev (dropWhile is_space (rev (dropWhile is_space s)))"

text \<open>
  \<^verbatim>\<open>BigInt(string)\<close> is the language's StringToBigInt: white space is trimmed, the empty
  string is 0, a decimal literal may carry a sign, and \<^verbatim>\<open>0x\<close>, \<^verbatim>\<open>0o\<close>, \<^verbatim>\<open>0b\<close> prefix a
  hexadecimal, octal or binary literal. Anything else raises a \<^verbatim>\<open>SyntaxError\<close>, here
  \<open>None\<close>.
\<close>

definition digit_value :: "char \<Rightarrow> nat option" where
  "digit_value c =
     (let n = (of_char c :: nat) in
      if 48 \<le> n \<and> n \<le> 57 then Some (n - 48)
      else if 97 \<le> n \<and> n \<le> 122 then Some (n - 87)
      else if 65 \<le> n \<and> n \<le> 90 then Some (n - 55)
      else None)"

fun parse_digits :: "nat \<Rightarrow> string \<Rightarrow> nat \<Rightarrow> nat option" where
  "parse_digits radix [] acc = Some acc"
| "parse_digits radix (c # cs) acc =
     (case digit_value c of
        None \<Rightarrow> None
      | Some d \<Rightarrow> if d < radix then parse_digits radix cs (acc * radix + d) else None)"

definition parse_nat :: "nat \<Rightarrow> string \<Rightarrow> nat option" where
  "parse_nat radix cs = (if cs = [] then None else parse_digits radix cs 0)"

definition BigInt :: "string \<Rightarrow> int option" where
  "BigInt s =
     (case trim s of
        [] \<Rightarrow> Some 0
      | c # cs \<Rightarrow>
          if c = CHR ''-'' then map_option (\<lambda>n. - int n) (parse_nat 10 cs)
          else if c = CHR ''+'' then map_option int (parse_nat 10 cs)
          else if c = CHR ''0'' \<and> cs \<noteq> [] \<and> hd cs \<in> set ''xX''
            then map_option int (parse_nat 16 (tl cs))
          else if c = CHR ''0'' \<and> cs \<noteq> [] \<and> hd cs \<in> set ''oO''
            then map_option int (parse_nat 8 (tl cs))
          else if c = CHR ''0'' \<and> cs \<noteq> [] \<and> hd cs \<in> set ''bB''
            then map_option int (parse_nat 2 (tl cs))
          else map_option int (parse_nat 10 (c # cs)))"

text \<open>\<^verbatim>\<open>bigint.toString()\<close>: the decimal digits, after a minus sign for a negative value.\<close>

fun dec_digits :: "nat \<Rightarrow> string" where
  "dec_digits n =
     (if n < 10 then [''0123456789'' ! n]
      else dec_digits (n div 10) @ [''0123456789'' ! (n mod 10)])"

declare dec_digits.simps [simp del]

definition bigint_toString :: "int \<Rightarrow> string" where
  "bigint_toString n =
     (if n < 0 then CHR ''-'' # dec_digits (nat (- n)) else dec_digits (nat n))"

text \<open>
  The \<^verbatim>\<open>while (temp > BigInt(0))\<close> loop of \<^verbatim>\<open>simhashHammingDistance\<close> (lines 197-202).
\<close>

function count_set_bits :: "int \<Rightarrow> nat \<Rightarrow> nat" where
  "count_set_bits temp distance =
     (if temp > 0
      then count_set_bits (drop_bit 1 temp) (if temp AND 1 \<noteq> 0 then distance + 1 else distance)
      else distance)"
  by pat_completeness auto
termination
  by (relation "measure (\<lambda>(temp, distance). nat temp)") (auto simp: drop_bit_eq_div)

declare count_set_bits.simps [simp del]

text \<open>
  \<^verbatim>\<open>simhashHammingDistance\<close> (lines 190-208): the \<^verbatim>\<open>catch\<close> branch returns 64 when either
  \<^verbatim>\<open>BigInt(...)\<close> throws.
\<close>

definition simhashHammingDistance :: "string \<Rightarrow> string \<Rightarrow> nat" where
  "simhashHammingDistance simhash1 simhash2 =
     (case BigInt simhash1 of
        None \<Rightarrow> 64
      | Some hash1 \<Rightarrow>
          (case BigInt simhash2 of
             None \<Rightarrow> 64
           | Some hash2 \<Rightarrow> count_set_bits (hash1 XOR hash2) 0))"

text \<open>
  \<^verbatim>\<open>isSimhashChangeSignificant\<close> (lines 223-230); the optional third argument defaults
  to 10.
\<close>

definition isSimhashChangeSignificant :: "string \<Rightarrow> string \<Rightarrow> real option \<Rightarrow> bool" where
  "isSimhashChangeSignificant oldSimhash newSimhash threshold =
     (let t = (case threshold of None \<Rightarrow> 10 | Some x \<Rightarrow> x);
          distance = simhashHammingDistance oldSimhash newSimhash
      in real distance > t)"

text \<open>The number of set bits of a 64-bit fingerprint.\<close>

definition popcount :: "64 word \<Rightarrow> nat" where
  "popcount w = length (filter (bit w) [0..<64])"

text \<open>A fingerprint as it is stored: the decimal string of its unsigned value.\<close>

definition fingerprint_string :: "64 word \<Rightarrow> string" where
  "fingerprint_string w = bigint_toString (uint w)"

section \<open>Hashing primitives (jobSnapshots)\<close>

text \<open>
  \<^verbatim>\<open>crypto.createHash("sha256").update(s).digest()\<close> belongs to the runtime, not to the
  repository: it is a parameter \<open>sha256\<close> that maps a string to a 256-bit word. The
  digest buffer holds the word's 32 bytes, most significant first, and
  \<^verbatim>\<open>digest("hex")\<close> prints them as 64 lower-case hexadecimal digits.
\<close>

definition digest_byte :: "256 word \<Rightarrow> nat \<Rightarrow> 8 word" where
  "digest_byte h k = ucast (drop_bit (8 * (31 - k)) h)"

definition hex_byte :: "8 word \<Rightarrow> string" where
  "hex_byte b =
     [''0123456789abcdef'' ! (unat b div 16), ''0123456789abcdef'' ! (unat b mod 16)]"

definition digest_hex :: "256 word \<Rightarrow> string" where
  "digest_hex h = concat (map (\<lambda>k. hex_byte (digest_byte h k)) [0..<32])"

text \<open>
  The fields of \<^verbatim>\<open>AdapterJob\<close> that the functions below read. Modelled from the spec: the
  type's declaration (adapters/types) is not among the sources; the composite key is
  three strings, every other field is a string or \<^verbatim>\<open>null\<close>, and the raw payload is kept
  as an opaque string.
\<close>

record AdapterJob =
  ats_provider :: string
  tenant_slug :: string
  external_job_id :: string
  title :: "string option"
  company_name :: "string option"
  location :: "string option"
  absolute_url :: "string option"
  first_published :: "string option"
  updated_at :: "string option"
  requisition_id :: "string option"
  content :: "string option"
  raw_json :: string

text \<open>\<^verbatim>\<open>generateContentHash\<close> (lines 23-26): \<^verbatim>\<open>content || ""\<close>, then the hex digest.\<close>

definition generateContentHash :: "(string \<Rightarrow> 256 word) \<Rightarrow> string option \<Rightarrow> string" where
  "generateContentHash sha256 content_arg =
     (let text = (case content_arg of None \<Rightarrow> [] | Some c \<Rightarrow> c)
      in digest_hex (sha256 text))"

subsection \<open>JSON.stringify on an object of strings and nulls\<close>

text \<open>
  \<^verbatim>\<open>JSON.stringify\<close> quotes a string: the quotation mark and the backslash are escaped,
  the control characters below 0x20 are written \<^verbatim>\<open>\b \f \n \r \t\<close> or
  \<^verbatim>\<open>\u00XX\<close>, every other character stands for itself; \<^verbatim>\<open>null\<close> is written
  \<^verbatim>\<open>null\<close>. With an array as second argument, the members are written in the array's
  order (each key once, at its first occurrence), skipping keys whose value is
  \<^verbatim>\<open>undefined\<close>.
\<close>

definition json_escape :: "char \<Rightarrow> string" where
  "json_escape c =
     (if c = CHR 0x22 then [CHR 0x5C, CHR 0x22]
      else if c = CHR 0x5C then [CHR 0x5C, CHR 0x5C]
      else if c = CHR 0x08 then [CHR 0x5C, CHR ''b'']
      else if c = CHR 0x0C then [CHR 0x5C, CHR ''f'']
      else if c = CHR 0x0A then [CHR 0x5C, CHR ''n'']
      else if c = CHR 0x0D then [CHR 0x5C, CHR ''r'']
      else if c = CHR 0x09 then [CHR 0x5C, CHR ''t'']
      else if (of_char c :: nat) < 32
        then [CHR 0x5C, CHR ''u'', CHR ''0'', CHR ''0''] @ hex_byte (of_char c)
      else [c])"

definition JSON_quote :: "string \<Rightarrow> string" where
  "JSON_quote s = CHR 0x22 # concat (map json_escape s) @ [CHR 0x22]"

definition JSON_value :: "string option \<Rightarrow> string" where
  "JSON_value v = (case v of None \<Rightarrow> ''null'' | Some s \<Rightarrow> JSON_quote s)"

fun join_with :: "string \<Rightarrow> string list \<Rightarrow> string" where
  "join_with sep [] = []"
| "join_with sep [x] = x"
| "join_with sep (x # y # ys) = x @ sep @ join_with sep (y # ys)"

definition JSON_stringify :: "string option js_object \<Rightarrow> string list \<Rightarrow> string" where
  "JSON_stringify obj replacer =
     (let property_list = rev (remdups (rev replacer));
          members =
            concat (map (\<lambda>k. case js_get obj k of
                               None \<Rightarrow> []
                             | Some v \<Rightarrow> [JSON_quote k @ '':'' @ JSON_value v])
                      property_list)
      in ''{'' @ join_with '','' members @ ''}'')"

text \<open>
  \<^verbatim>\<open>generateMetadataHash\<close> (lines 33-47). \<^verbatim>\<open>Object.keys(metadata).sort()\<close> sorts the
  keys as strings, by character code.
\<close>

definition metadata_object :: "AdapterJob \<Rightarrow> string option js_object" where
  "metadata_object jobData =
     [(''title'', title jobData),
      (''company_name'', company_name jobData),
      (''location'', location jobData),
      (''first_published'', first_published jobData),
      (''updated_at'', updated_at jobData),
      (''requisition_id'', requisition_id jobData)]"

definition metadata_string :: "AdapterJob \<Rightarrow> string" where
  "metadata_string jobData =
     (let metadata = metadata_object jobData
      in JSON_stringify metadata (sort (Object_keys metadata)))"

definition generateMetadataHash :: "(string \<Rightarrow> 256 word) \<Rightarrow> AdapterJob \<Rightarrow> string" where
  "generateMetadataHash sha256 jobData = digest_hex (sha256 (metadata_string jobData))"

subsection \<open>Simhash\<close>

text \<open>
  \<^verbatim>\<open>toLowerCase\<close> on ASCII text, the class \<^verbatim>\<open>\w\<close> (letters, digits, underscore), and
  \<^verbatim>\<open>split(/\s+/)\<close>: the fields between maximal runs of white space, an empty field
  included where the text starts or ends with white space.
\<close>

definition toLowerCase :: "string \<Rightarrow> string" where
  "toLowerCase s =
     map (\<lambda>c. case map_of (zip ''ABCDEFGHIJKLMNOPQRSTUVWXYZ'' ''abcdefghijklmnopqrstuvwxyz'') c of
                 Some l \<Rightarrow> l
               | None \<Rightarrow> c) s"

definition is_word_char :: "char \<Rightarrow> bool" where
  "is_word_char c =
     (c \<in> set ''abcdefghijklmnopqrstuvwxyzABCDEFGHIJKLMNOPQRSTUVWXYZ0123456789_'')"

fun split_fields :: "bool \<Rightarrow> string \<Rightarrow> string \<Rightarrow> string list" where
  "split_fields in_sep cur [] = [rev cur]"
| "split_fields in_sep cur (c # cs) =
     (if is_space c
      then (if in_sep then split_fields True [] cs else rev cur # split_fields True [] cs)
      else split_fields False (c # cur) cs)"

text \<open>The tokens of \<^verbatim>\<open>generateSimhash\<close> (lines 73-77).\<close>

definition tokenize :: "string \<Rightarrow> string list" where
  "tokenize text =
     filter (\<lambda>token. length token > 0)
       (split_fields False []
          (map (\<lambda>c. if is_word_char c \<or> is_space c then c else CHR '' '')
             (toLowerCase text)))"

text \<open>
  The bit read at position \<open>i\<close> of a token's digest (lines 89-91):
  \<^verbatim>\<open>(hash[Math.floor(i / 8)] >> (i % 8)) & 1\<close>.
\<close>

definition token_bit :: "256 word \<Rightarrow> nat \<Rightarrow> bool" where
  "token_bit hash i =
     (let byteIndex = i div 8; bitIndex = i mod 8
      in drop_bit bitIndex (digest_byte hash byteIndex) AND 1 = 1)"

text \<open>The inner loop (lines 88-95) adds 1 or -1 to each of the 64 weights.\<close>

definition add_token_weights :: "256 word \<Rightarrow> int list \<Rightarrow> int list" where
  "add_token_weights hash weights =
     fold (\<lambda>i w. w[i := w ! i + (if token_bit hash i then 1 else - 1)]) [0..<64] weights"

text \<open>\<^verbatim>\<open>generateSimhash\<close> (lines 64-107); the result is a \<^verbatim>\<open>bigint\<close>.\<close>

definition generateSimhash :: "(string \<Rightarrow> 256 word) \<Rightarrow> string \<Rightarrow> int" where
  "generateSimhash sha256 text =
     (let HASH_BITS = 64;
          weights0 = replicate HASH_BITS (0 :: int)
      in if text = [] \<or> length (trim text) = 0 then 0
         else
           let tokens = tokenize text in
           if length tokens = 0 then 0
           else
             let weights = fold (\<lambda>token w. add_token_weights (sha256 token) w) tokens weights0
             in fold (\<lambda>i simhash. if weights ! i > 0 then simhash OR push_bit i 1 else simhash)
                  [0..<HASH_BITS] 0)"


subsection \<open>Snapshots\<close>

text \<open>The row type \<^verbatim>\<open>dbJobSnapshot\<close> (lines 6-15).\<close>

record dbJobSnapshot =
  job_id :: string
  snapshot_at :: "string option"
  ats_updated_at :: "string option"
  snapshot_raw_json :: string
  content_hash :: string
  metadata_hash :: string
  content_simhash :: string
  metadata_simhash :: string

text \<open>\<^verbatim>\<open>createSnapshotData\<close> (lines 117-148).\<close>

definition createSnapshotData :: "(string \<Rightarrow> 256 word) \<Rightarrow> string \<Rightarrow> AdapterJob \<Rightarrow> dbJobSnapshot" where
  "createSnapshotData sha256 jobId jobData =
     (let content_text = (case content jobData of None \<Rightarrow> [] | Some c \<Rightarrow> c);
          contentHash = generateContentHash sha256 (Some content_text);
          metadataHash = generateMetadataHash sha256 jobData;
          contentSimhash = generateSimhash sha256 content_text;
          metadataString =
            JSON_stringify
              [(''title'', title jobData), (''company_name'', company_name jobData),
               (''location'', location jobData)]
              [''title'', ''company_name'', ''location''];
          metadataSimhash = generateSimhash sha256 metadataString
      in \<lparr> job_id = jobId,
           snapshot_at = None,
           ats_updated_at = updated_at jobData,
           snapshot_raw_json = raw_json jobData,
           content_hash = contentHash,
           metadata_hash = metadataHash,
           content_simhash = bigint_toString contentSimhash,
           metadata_simhash = bigint_toString metadataSimhash \<rparr>)"

text \<open>\<^verbatim>\<open>hasContentChanged\<close> (lines 159-167).\<close>

definition hasContentChanged :: "dbJobSnapshot \<Rightarrow> dbJobSnapshot \<Rightarrow> bool" where
  "hasContentChanged oldSnapshot newSnapshot =
     (content_hash oldSnapshot \<noteq> content_hash newSnapshot
      \<or> metadata_hash oldSnapshot \<noteq> metadata_hash newSnapshot)"

text \<open>
  A \<^verbatim>\<open>string | null\<close> is falsy when it is \<^verbatim>\<open>null\<close> or the empty string.
  \<^verbatim>\<open>hasAtsUpdatedAtChanged\<close> (lines 173-181).
\<close>

definition falsy :: "string option \<Rightarrow> bool" where
  "falsy v = (case v of None \<Rightarrow> True | Some s \<Rightarrow> s = [])"

definition hasAtsUpdatedAtChanged :: "dbJobSnapshot option \<Rightarrow> string option \<Rightarrow> bool" where
  "hasAtsUpdatedAtChanged oldSnapshot newAtsUpdatedAt =
     (case oldSnapshot of
        None \<Rightarrow> True
      | Some old \<Rightarrow>
          if falsy (ats_updated_at old) \<and> falsy newAtsUpdatedAt then False
          else if falsy (ats_updated_at old) \<or> falsy newAtsUpdatedAt then True
          else ats_updated_at old \<noteq> newAtsUpdatedAt)"

section \<open>Admission controller (action.ts)\<close>

text \<open>
  The table \<^verbatim>\<open>request_lock\<close> holds one row per user. A storage call either succeeds or
  returns an error; which calls fail during a request is a parameter (\<open>lock_faults\<close>),
  so that every \<^verbatim>\<open>throw\<close> and every ignored error of the source is a branch here.
\<close>

record RequestLock =
  is_available :: bool
  tokens_remaining :: int

type_synonym request_lock_table = "string \<rightharpoonup> RequestLock"

datatype db_error = DbError

record lock_faults =
  select_fails :: bool
  insert_fails :: bool
  lock_update_fails :: bool
  decrement_fails :: bool
  restore_fails :: bool
  release_fails :: bool

definition no_lock_faults :: lock_faults where
  "no_lock_faults =
     \<lparr> select_fails = False, insert_fails = False, lock_update_fails = False,
       decrement_fails = False, restore_fails = False, release_fails = False \<rparr>"

text \<open>\<^verbatim>\<open>request_lock_and_tokens\<close> (lines 97-126): returns \<open>(is_available, tokens)\<close>.\<close>

definition request_lock_and_tokens ::
  "lock_faults \<Rightarrow> string \<Rightarrow> request_lock_table \<Rightarrow> (db_error + bool \<times> int) \<times> request_lock_table"
where
  "request_lock_and_tokens f userId tbl =
     (if select_fails f then (Inl DbError, tbl)
      else
        case tbl userId of
          None \<Rightarrow>
            if insert_fails f then (Inl DbError, tbl)
            else (Inr (True, 3),
                  tbl(userId \<mapsto> \<lparr> is_available = True, tokens_remaining = 3 \<rparr>))
        | Some row \<Rightarrow> (Inr (is_available row, tokens_remaining row), tbl))"

text \<open>
  \<^verbatim>\<open>set_request_lock\<close> (lines 128-157). The first update matches the user's row only
  while \<^verbatim>\<open>is_available\<close> is true and returns its \<^verbatim>\<open>tokens_remaining\<close>; no row matched
  means \<^verbatim>\<open>return false\<close>. When the decrement fails, \<^verbatim>\<open>is_available\<close> is set back (an
  update whose own error is not looked at) and the error is thrown.
\<close>

definition set_request_lock ::
  "lock_faults \<Rightarrow> string \<Rightarrow> request_lock_table \<Rightarrow> (db_error + bool) \<times> request_lock_table"
where
  "set_request_lock f userId tbl =
     (if lock_update_fails f then (Inl DbError, tbl)
      else
        case tbl userId of
          None \<Rightarrow> (Inr False, tbl)
        | Some row \<Rightarrow>
            if \<not> is_available row then (Inr False, tbl)
            else
              let locked = row\<lparr>is_available := False\<rparr>;
                  tbl1 = tbl(userId \<mapsto> locked)
              in if decrement_fails f
                 then (Inl DbError,
                       if restore_fails f then tbl1
                       else tbl1(userId \<mapsto> locked\<lparr>is_available := True\<rparr>))
                 else (Inr True,
                       tbl1(userId \<mapsto>
                         locked\<lparr>tokens_remaining := tokens_remaining row - 1\<rparr>)))"

text \<open>\<^verbatim>\<open>release_request_lock\<close> (lines 159-166): an error is logged only.\<close>

definition release_request_lock ::
  "lock_faults \<Rightarrow> string \<Rightarrow> request_lock_table \<Rightarrow> request_lock_table"
where
  "release_request_lock f userId tbl =
     (if release_fails f then tbl
      else
        case tbl userId of
          None \<Rightarrow> tbl
        | Some row \<Rightarrow> tbl(userId \<mapsto> row\<lparr>is_available := True\<rparr>))"

text \<open>The invariant of the data model: no row has a negative token count.\<close>

definition tokens_nonneg :: "request_lock_table \<Rightarrow> bool" where
  "tokens_nonneg tbl = (\<forall>u row. tbl u = Some row \<longrightarrow> 0 \<le> tokens_remaining row)"

section \<open>Job cache and snapshots (action.ts, analyzeJob.ts)\<close>

text \<open>
  The tables. A row of \<^verbatim>\<open>jobs\<close> holds its id, the columns the upsert writes from the
  adapter's job (\<^verbatim>\<open>ats\<close> is \<open>ats_provider\<close>), \<^verbatim>\<open>last_seen\<close> and \<^verbatim>\<open>is_active\<close>. Of
  \<^verbatim>\<open>job_features\<close> only the ids of the jobs that have a row are kept. \<^verbatim>\<open>job_updates\<close> and
  \<^verbatim>\<open>job_snapshots\<close> are lists in insertion order.
\<close>

record job_row =
  job_row_id :: string
  job :: AdapterJob
  last_seen :: "string option"
  is_active :: bool

record job_update_row =
  update_job_id :: string
  update_ats_updated_at :: "string option"

record database =
  jobs :: "job_row list"
  job_features :: "string list"
  job_updates :: "job_update_row list"
  job_snapshots :: "dbJobSnapshot list"

text \<open>
  What a request takes from outside the repository: the date parser
  (\<^verbatim>\<open>new Date(s).getTime()\<close>, \<open>None\<close> for \<^verbatim>\<open>NaN\<close>), the clock (\<^verbatim>\<open>Date.now()\<close> and
  \<^verbatim>\<open>new Date().toISOString()\<close>, one reading per request), the id the store gives a new
  \<^verbatim>\<open>jobs\<close> row and the default of its \<^verbatim>\<open>last_seen\<close> column (the schema is not among the
  sources), the digest function, and which storage or NLP calls fail.
\<close>

record faults =
  jobs_select_fails :: bool
  jobs_upsert_fails :: bool
  jobs_update_fails :: bool
  job_updates_insert_fails :: bool
  job_features_upsert_fails :: bool
  snapshots_select_fails :: bool
  snapshots_insert_fails :: bool
  nlp_fails :: bool

definition no_faults :: faults where
  "no_faults =
     \<lparr> jobs_select_fails = False, jobs_upsert_fails = False, jobs_update_fails = False,
       job_updates_insert_fails = False, job_features_upsert_fails = False,
       snapshots_select_fails = False, snapshots_insert_fails = False, nlp_fails = False \<rparr>"

record environment =
  env_getTime :: "string \<Rightarrow> int option"
  env_now_ms :: int
  env_now_iso :: string
  env_new_job_id :: string
  env_default_last_seen :: "string option"
  env_sha256 :: "string \<Rightarrow> 256 word"
  env_faults :: faults

text \<open>The comparison \<^verbatim>\<open>a > b\<close> of two \<^verbatim>\<open>getTime()\<close> results: false when either is NaN.\<close>

definition js_gt :: "int option \<Rightarrow> int option \<Rightarrow> bool" where
  "js_gt a b = (case (a, b) of (Some x, Some y) \<Rightarrow> x > y | _ \<Rightarrow> False)"

definition same_key :: "AdapterJob \<Rightarrow> job_row \<Rightarrow> bool" where
  "same_key j r =
     (ats_provider (job r) = ats_provider j \<and> tenant_slug (job r) = tenant_slug j
      \<and> external_job_id (job r) = external_job_id j)"

text \<open>
  \<^verbatim>\<open>getJobByCompositeKey\<close> (lines 400-424), called with the three key fields of the
  adapter's job: \<^verbatim>\<open>maybeSingle\<close> gives the row, \<^verbatim>\<open>null\<close> for none, and an error (here
  \<^verbatim>\<open>null\<close> as well) for more than one.
\<close>

definition getJobByCompositeKey :: "environment \<Rightarrow> database \<Rightarrow> AdapterJob \<Rightarrow> job_row option" where
  "getJobByCompositeKey env db j =
     (if jobs_select_fails (env_faults env) then None
      else case filter (same_key j) (jobs db) of [r] \<Rightarrow> Some r | _ \<Rightarrow> None)"

definition set_last_seen :: "string \<Rightarrow> string \<Rightarrow> database \<Rightarrow> database" where
  "set_last_seen job_Id now db =
     db\<lparr>jobs := map (\<lambda>r. if job_row_id r = job_Id then r\<lparr>last_seen := Some now\<rparr> else r)
                    (jobs db)\<rparr>"

definition insert_job_update :: "environment \<Rightarrow> string \<Rightarrow> string option \<Rightarrow> database \<Rightarrow> bool \<times> database" where
  "insert_job_update env job_Id ts db =
     (if job_updates_insert_fails (env_faults env) then (False, db)
      else (True, db\<lparr>job_updates := job_updates db
                        @ [\<lparr> update_job_id = job_Id, update_ats_updated_at = ts \<rparr>]\<rparr>))"

definition touch_last_seen :: "environment \<Rightarrow> string \<Rightarrow> database \<Rightarrow> database" where
  "touch_last_seen env job_Id db =
     (if jobs_update_fails (env_faults env) then db
      else set_last_seen job_Id (env_now_iso env) db)"

text \<open>
  \<^verbatim>\<open>InsertToJobUpdatesTable\<close> (lines 223-301): returns whether a row was inserted, and
  the tables.
\<close>

definition InsertToJobUpdatesTable ::
  "environment \<Rightarrow> string \<Rightarrow> AdapterJob \<Rightarrow> database \<Rightarrow> bool \<times> database"
where
  "InsertToJobUpdatesTable env job_Id jobDetails db =
     (let incomingAtsUpdatedAt = updated_at jobDetails in
      if jobs_select_fails (env_faults env) then (False, db)
      else
        case filter (\<lambda>r. job_row_id r = job_Id) (jobs db) of
          [jobRow] \<Rightarrow>
            let existingUpdatedAt = updated_at (job jobRow) in
            if falsy incomingAtsUpdatedAt then (False, db)
            else if falsy existingUpdatedAt then
              let (ok, db1) = insert_job_update env job_Id incomingAtsUpdatedAt db
              in (ok, touch_last_seen env job_Id db1)
            else
              let incomingTime = Option.bind incomingAtsUpdatedAt (env_getTime env);
                  existingTime = Option.bind existingUpdatedAt (env_getTime env);
                  (inserted, db1) =
                    (if js_gt incomingTime existingTime
                     then insert_job_update env job_Id incomingAtsUpdatedAt db
                     else (False, db))
              in (inserted, touch_last_seen env job_Id db1)
        | _ \<Rightarrow> (False, db))"

text \<open>
  \<^verbatim>\<open>insertIntoJobTable\<close> (lines 170-220): the upsert on the composite key writes the
  adapter's columns and \<^verbatim>\<open>is_active: true\<close> and returns the row's id, \<^verbatim>\<open>null\<close> on an
  error.
\<close>

definition insertIntoJobTable ::
  "environment \<Rightarrow> AdapterJob \<Rightarrow> database \<Rightarrow> string option \<times> database"
where
  "insertIntoJobTable env jobDetails db =
     (if jobs_upsert_fails (env_faults env) then (None, db)
      else
        case filter (same_key jobDetails) (jobs db) of
          [] \<Rightarrow>
            (Some (env_new_job_id env),
             db\<lparr>jobs := jobs db
                   @ [\<lparr> job_row_id = env_new_job_id env, job = jobDetails,
                        last_seen = env_default_last_seen env, is_active = True \<rparr>]\<rparr>)
        | r # _ \<Rightarrow>
            (Some (job_row_id r),
             db\<lparr>jobs := map (\<lambda>x. if same_key jobDetails x
                                   then x\<lparr>job := jobDetails, is_active := True\<rparr> else x)
                            (jobs db)\<rparr>))"

text \<open>\<^verbatim>\<open>createJobSnapshot\<close> (lines 540-575) stamps \<^verbatim>\<open>snapshot_at\<close> and inserts the row.\<close>

definition createJobSnapshot :: "environment \<Rightarrow> dbJobSnapshot \<Rightarrow> database \<Rightarrow> bool \<times> database" where
  "createJobSnapshot env snapshot db =
     (if snapshots_insert_fails (env_faults env) then (False, db)
      else (True, db\<lparr>job_snapshots := job_snapshots db
                        @ [snapshot\<lparr>snapshot_at := Some (env_now_iso env)\<rparr>]\<rparr>))"

text \<open>
  \<^verbatim>\<open>getLatestSnapshotForJob\<close> (lines 584-602): the job's row with the greatest
  \<^verbatim>\<open>snapshot_at\<close> (ISO strings of one format compare as their instants; among equal
  ones the row inserted last is taken), \<^verbatim>\<open>null\<close> for none or on an error.
\<close>

definition not_earlier :: "dbJobSnapshot \<Rightarrow> dbJobSnapshot \<Rightarrow> bool" where
  "not_earlier x best =
     (case snapshot_at x of
        None \<Rightarrow> True
      | Some tx \<Rightarrow> (case snapshot_at best of None \<Rightarrow> False | Some tb \<Rightarrow> tb \<le> tx))"

definition getLatestSnapshotForJob :: "environment \<Rightarrow> database \<Rightarrow> string \<Rightarrow> dbJobSnapshot option" where
  "getLatestSnapshotForJob env db jobId =
     (if snapshots_select_fails (env_faults env) then None
      else
        case filter (\<lambda>s. job_id s = jobId) (job_snapshots db) of
          [] \<Rightarrow> None
        | s # rest \<Rightarrow> Some (fold (\<lambda>x best. if not_earlier x best then x else best) rest s))"

text \<open>\<^verbatim>\<open>isJobFresh\<close> (analyzeJob.ts, lines 251-258).\<close>

definition isJobFresh :: "environment \<Rightarrow> job_row \<Rightarrow> bool" where
  "isJobFresh env r =
     (if falsy (last_seen r) then False
      else
        case Option.bind (last_seen r) (env_getTime env) of
          None \<Rightarrow> False
        | Some seen \<Rightarrow> real_of_int (env_now_ms env - seen) / (1000 * 60 * 60) < 24)"

text \<open>
  What \<^verbatim>\<open>analyzeJob\<close> does to the tables for a scraped job (lines 229-361). The result
  tells a cache hit, a stored (re-)ingest, a job that is not persisted (any provider other
  than \<^verbatim>\<open>"greenhouse"\<close>) and a failure apart. \<open>analyzeJob_ingest\<close> is branch 3b (lines
  273-340), for a new job (\<open>existingJob = None\<close>) or an existing one. An exception of the
  NLP call leaves the function through its \<^verbatim>\<open>catch\<close>, after the writes made so far.
\<close>

datatype outcome = Cached string | Stored string | NotPersisted | Failed

definition analyzeJob_ingest ::
  "environment \<Rightarrow> job_row option \<Rightarrow> AdapterJob \<Rightarrow> database \<Rightarrow> outcome \<times> database"
where
  "analyzeJob_ingest env existingJob adapterJob db =
     (let db1 = (case existingJob of
                   Some e \<Rightarrow> snd (InsertToJobUpdatesTable env (job_row_id e) adapterJob db)
                 | None \<Rightarrow> db)
      in case insertIntoJobTable env adapterJob db1 of
           (None, db2) \<Rightarrow> (Failed, db2)
         | (Some jobId, db2) \<Rightarrow>
             let db3 = (if existingJob = None \<and> \<not> falsy (updated_at adapterJob)
                        then snd (insert_job_update env jobId (updated_at adapterJob) db2)
                        else db2)
             in if nlp_fails (env_faults env) then (Failed, db3)
                else
                  let db4 = (if job_features_upsert_fails (env_faults env) then db3
                             else db3\<lparr>job_features := List.insert jobId (job_features db3)\<rparr>);
                      newSnapshotData = createSnapshotData (env_sha256 env) jobId adapterJob
                  in if existingJob = None
                     then (Stored jobId, snd (createJobSnapshot env newSnapshotData db4))
                     else
                       case getLatestSnapshotForJob env db4 jobId of
                         None \<Rightarrow> (Stored jobId, snd (createJobSnapshot env newSnapshotData db4))
                       | Some latestSnapshot \<Rightarrow>
                           if hasAtsUpdatedAtChanged (Some latestSnapshot) (updated_at adapterJob)
                           then (Stored jobId, snd (createJobSnapshot env newSnapshotData db4))
                           else (Stored jobId, db4))"

definition analyzeJob_store :: "environment \<Rightarrow> AdapterJob \<Rightarrow> database \<Rightarrow> outcome \<times> database" where
  "analyzeJob_store env adapterJob db =
     (let existingJob = getJobByCompositeKey env db adapterJob in
      if ats_provider adapterJob = ''greenhouse''
      then (case existingJob of
              Some e \<Rightarrow>
                if isJobFresh env e \<and> job_row_id e \<in> set (job_features db)
                then (Cached (job_row_id e), db)
                else analyzeJob_ingest env existingJob adapterJob db
            | None \<Rightarrow> analyzeJob_ingest env existingJob adapterJob db)
      else (NotPersisted, db))"

text \<open>A job's row, by id.\<close>

definition job_by_id :: "database \<Rightarrow> string \<Rightarrow> job_row option" where
  "job_by_id db jid = find (\<lambda>r. job_row_id r = jid) (jobs db)"

text \<open>Appending a row to \<^verbatim>\<open>job_updates\<close>.\<close>

definition add_update :: "string \<Rightarrow> string option \<Rightarrow> database \<Rightarrow> database" where
  "add_update jid ts db =
     db\<lparr>job_updates := job_updates db @ [\<lparr> update_job_id = jid, update_ats_updated_at = ts \<rparr>]\<rparr>"

section \<open>Example data\<close>

text \<open>A job as the Greenhouse adapter returns it; the witnesses below run on it.\<close>

definition job_a :: AdapterJob where
  "job_a = \<lparr> ats_provider = ''greenhouse'', tenant_slug = ''acme'', external_job_id = ''4001'',
     title = Some ''Engineer'', company_name = Some ''Acme'', location = Some ''Remote'',
     absolute_url = Some ''https://boards.greenhouse.io/acme/jobs/4001'',
     first_published = Some ''2024-01-01T00:00:00Z'', updated_at = Some ''2024-01-01T00:00:00Z'',
     requisition_id = None, content = Some ''Build things'', raw_json = ''{}'' \<rparr>"

text \<open>
  The same job as the source reports it a month later, an environment in which every call
  succeeds (its digest function is a stand-in: any function would do), and tables that
  hold the job after its first ingest.
\<close>

definition job_a_updated :: AdapterJob where
  "job_a_updated =
     job_a\<lparr>updated_at := Some ''2024-02-01T00:00:00Z'', content := Some ''Build other things''\<rparr>"

definition example_env :: environment where
  "example_env =
     \<lparr> env_getTime = map_of [(''2024-01-01T00:00:00Z'', 1704067200000),
                              (''2024-02-01T00:00:00Z'', 1706745600000)],
       env_now_ms = 1706832000000,
       env_now_iso = ''2024-02-02T00:00:00.000Z'',
       env_new_job_id = ''job-2'',
       env_default_last_seen = None,
       env_sha256 = (\<lambda>s. of_nat (length s)),
       env_faults = no_faults \<rparr>"

definition example_row :: job_row where
  "example_row =
     \<lparr> job_row_id = ''job-1'', job = job_a, last_seen = Some ''2024-01-01T00:00:00Z'',
       is_active = True \<rparr>"

definition example_snapshot :: dbJobSnapshot where
  "example_snapshot =
     \<lparr> job_id = ''job-1'', snapshot_at = Some ''2024-01-01T00:00:00.000Z'',
       ats_updated_at = Some ''2024-01-01T00:00:00Z'', snapshot_raw_json = ''{}'',
       content_hash = ''c0'', metadata_hash = ''m0'', content_simhash = ''12'',
       metadata_simhash = ''34'' \<rparr>"

definition example_db :: database where
  "example_db =
     \<lparr> jobs = [example_row], job_features = [''job-1''],
       job_updates = [\<lparr> update_job_id = ''job-1'',
                        update_ats_updated_at = Some ''2024-01-01T00:00:00Z'' \<rparr>],
       job_snapshots = [example_snapshot] \<rparr>"


section \<open>Verified properties\<close>

subsection \<open>Scoring aggregator\<close>

lemma overflow_threshold_large: "2 ^ 1023 \<le> overflow_threshold"
proof -
  have "(2::real) ^ 970 \<le> 2 ^ 1023" by (rule power_increasing) simp_all
  moreover have "(2::real) ^ 1024 = 2 * 2 ^ 1023" by simp
  ultimately show ?thesis unfolding overflow_threshold_def by linarith
qed

lemma min_normal_pos: "0 < min_normal"
  by (simp add: min_normal_def)

lemma min_normal_small: "min_normal \<le> 1 / 2 ^ 10"
  unfolding min_normal_def
  by (rule divide_left_mono) (simp_all add: power_increasing)

lemma threshold_gt_one: "1 < overflow_threshold"
proof -
  have "(1::real) < 2 ^ 1023" by (rule one_less_power) simp_all
  then show ?thesis using overflow_threshold_large by linarith
qed

lemma to_double_exact: "in_normal_range x \<Longrightarrow> to_double x = Finite x"
  using min_normal_pos threshold_gt_one
  by (auto simp: in_normal_range_def to_double_def round_half_even_def)

lemma to_double_overflow: "overflow_threshold \<le> x \<Longrightarrow> to_double x = PosInfinity"
  using threshold_gt_one by (auto simp: to_double_def)


text \<open>The code's lookups are the specification's.\<close>

lemma merged_weight_table:
  "(case merged_weight weights k of Some x \<Rightarrow> x > 0 | None \<Rightarrow> False) = (0 < table_weight weights k)"
  "0 < table_weight weights k \<Longrightarrow> merged_weight weights k = Some (table_weight weights k)"
  by (auto simp: merged_weight_def table_weight_def js_get_def split: option.splits)

lemma merged_weight_not_positive:
  "\<not> 0 < table_weight weights k \<Longrightarrow>
   (case merged_weight weights k of Some x \<Rightarrow> \<not> x > 0 | None \<Rightarrow> True)"
  by (auto simp: merged_weight_def table_weight_def js_get_def split: option.splits)





lemma weights_sum_nonneg:
  "0 \<le> (\<Sum>k\<leftarrow>filter (\<lambda>k. 0 < table_weight ws k) ks. table_weight ws k)"
  by (rule sum_list_nonneg) auto




text \<open>
  The weight sum alone: exact while it stays below the threshold, infinite from then on.
\<close>

lemma weigh_keys_weight_infinite:
  "fst (weigh_keys (merged_weight ws) val ks (PosInfinity, s)) = PosInfinity"
proof (induction ks arbitrary: s)
  case Nil
  show ?case by simp
next
  case (Cons k ks)
  then show ?case by (auto split: option.splits)
qed

lemma weigh_keys_weight_sum:
  assumes "\<forall>k \<in> set ks. 0 < table_weight ws k \<longrightarrow> min_normal \<le> table_weight ws k"
    and "a = 0 \<or> min_normal \<le> a" and "a < overflow_threshold"
  shows "fst (weigh_keys (merged_weight ws) val ks (Finite a, s)) =
     (if a + (\<Sum>k\<leftarrow>filter (\<lambda>k. 0 < table_weight ws k) ks. table_weight ws k)
           < overflow_threshold
      then Finite (a + (\<Sum>k\<leftarrow>filter (\<lambda>k. 0 < table_weight ws k) ks. table_weight ws k))
      else PosInfinity)"
  using assms
proof (induction ks arbitrary: a s)
  case Nil
  then show ?case by simp
next
  case (Cons k ks)
  let ?W = "\<Sum>k\<leftarrow>filter (\<lambda>k. 0 < table_weight ws k) ks. table_weight ws k"
  have rest: "\<forall>k \<in> set ks. 0 < table_weight ws k \<longrightarrow> min_normal \<le> table_weight ws k"
    using Cons.prems(1) by simp
  have a0: "0 \<le> a" using Cons.prems(2) min_normal_pos by auto
  have W0: "0 \<le> ?W" by (rule weights_sum_nonneg)
  show ?case
  proof (cases "0 < table_weight ws k")
    case False
    have "weigh_keys (merged_weight ws) val (k # ks) (Finite a, s)
            = weigh_keys (merged_weight ws) val ks (Finite a, s)"
      using merged_weight_not_positive [OF False] by (auto split: option.splits)
    then show ?thesis using Cons.IH [OF rest Cons.prems(2,3)] False by simp
  next
    case True
    let ?w = "table_weight ws k"
    let ?s' = "js_add s (js_mul (Finite ?w) (Finite (val k)))"
    have wn: "min_normal \<le> ?w" using Cons.prems(1) True by simp
    have step: "weigh_keys (merged_weight ws) val (k # ks) (Finite a, s)
            = weigh_keys (merged_weight ws) val ks (to_double (a + ?w), ?s')"
      using merged_weight_table(2) [OF True] True by simp
    show ?thesis
    proof (cases "a + ?w < overflow_threshold")
      case lt: True
      have "in_normal_range (a + ?w)"
        using a0 wn lt min_normal_pos by (simp add: in_normal_range_def)
      then have td: "to_double (a + ?w) = Finite (a + ?w)" by (rule to_double_exact)
      have i2: "a + ?w = 0 \<or> min_normal \<le> a + ?w" using a0 wn by simp
      show ?thesis
        unfolding step td using Cons.IH [OF rest i2 lt, of ?s'] True by (simp add: add.assoc)
    next
      case ge: False
      then have td: "to_double (a + ?w) = PosInfinity" by (simp add: to_double_overflow)
      have "\<not> a + ?w + ?W < overflow_threshold" using ge W0 by simp
      then show ?thesis
        unfolding step td using True by (simp add: weigh_keys_weight_infinite add.assoc)
    qed
  qed
qed



lemma below_threshold: "x \<le> 2 ^ 10 \<Longrightarrow> x < overflow_threshold"
proof -
  assume a: "x \<le> 2 ^ 10"
  have "(2::real) ^ 10 < 2 ^ 1023" by (rule power_strict_increasing) simp_all
  then show ?thesis using a overflow_threshold_large by linarith
qed








lemma weights_used_default:
  assumes keys: "Object_keys breakdown = Object_keys DEFAULT_WEIGHTS"
    and ws: "ws = DEFAULT_WEIGHTS \<or> ws = []"
  shows "weights_used breakdown ws = Finite 0.95"
proof -
  let ?ks = "Object_keys breakdown"
  have tw: "table_weight ws = table_weight []"
    using ws by (auto simp: table_weight_def fun_eq_iff split: option.splits)
  have ks: "?ks = [''freshness'', ''link_integrity'', ''salary_disclosure'', ''salary_min_present'',
      ''source_credibility'', ''skills_present'', ''buzzword_penalty'', ''comp_period_clarity'',
      ''update_cadence'', ''content_change_quality'']"
    unfolding keys by (simp add: Object_keys_def DEFAULT_WEIGHTS_def)
  have hyp: "\<forall>k \<in> set ?ks. 0 < table_weight ws k \<longrightarrow> min_normal \<le> table_weight ws k"
    unfolding ks tw using min_normal_small by (simp add: table_weight_def DEFAULT_WEIGHTS_def)
  have total: "(\<Sum>k\<leftarrow>filter (\<lambda>k. 0 < table_weight ws k) ?ks. table_weight ws k) = 0.95"
    unfolding ks tw by (simp add: table_weight_def DEFAULT_WEIGHTS_def)
  have z: "(0::real) = 0 \<or> min_normal \<le> 0" by simp
  have t: "(0::real) < overflow_threshold" using threshold_gt_one by linarith
  have lt: "(0.95::real) < overflow_threshold" by (rule below_threshold) simp
  show ?thesis
    unfolding weights_used_def
    using weigh_keys_weight_sum [OF hyp z t, of "clamped_value breakdown" "Finite 0"] lt
    by (simp add: total)
qed

text \<open>
  Claim C2, as the code has it. The specification says the ten default weights sum to 1.0; they
  sum to 0.95.
\<close>

theorem DEFAULT_WEIGHTS_sum_not_one:
  "sum_list (map snd DEFAULT_WEIGHTS) \<noteq> 1"
  by (simp add: DEFAULT_WEIGHTS_def)

text \<open>
  Claim C2, amended: the weight table has exactly the ten named signals and its weights
  sum to 0.95; whenever all ten signals are present in the breakdown, the weights that
  \<^verbatim>\<open>finalizeScore\<close> uses (its \<^verbatim>\<open>sumW\<close>) sum to 0.95, under the default table passed
  explicitly or left to the defaults.
\<close>

theorem DEFAULT_WEIGHTS_sum:
  "Object_keys DEFAULT_WEIGHTS =
     [''freshness'', ''link_integrity'', ''salary_disclosure'', ''salary_min_present'',
      ''source_credibility'', ''skills_present'', ''buzzword_penalty'', ''comp_period_clarity'',
      ''update_cadence'', ''content_change_quality'']
   \<and> sum_list (map snd DEFAULT_WEIGHTS) = 0.95
   \<and> (\<forall>breakdown. Object_keys breakdown = Object_keys DEFAULT_WEIGHTS \<longrightarrow>
         weights_used breakdown DEFAULT_WEIGHTS = Finite 0.95
         \<and> weights_used breakdown [] = Finite 0.95)"
proof -
  have "Object_keys DEFAULT_WEIGHTS =
     [''freshness'', ''link_integrity'', ''salary_disclosure'', ''salary_min_present'',
      ''source_credibility'', ''skills_present'', ''buzzword_penalty'', ''comp_period_clarity'',
      ''update_cadence'', ''content_change_quality'']"
    by (simp add: Object_keys_def DEFAULT_WEIGHTS_def)
  moreover have "sum_list (map snd DEFAULT_WEIGHTS) = 0.95"
    by (simp add: DEFAULT_WEIGHTS_def)
  ultimately show ?thesis using weights_used_default by blast
qed

theorem DEFAULT_WEIGHTS_sum_witness:
  "Object_keys (map (\<lambda>(k, w). (k, Finite 1)) DEFAULT_WEIGHTS) = Object_keys DEFAULT_WEIGHTS
   \<and> weights_used (map (\<lambda>(k, w). (k, Finite 1)) DEFAULT_WEIGHTS) [] = Finite 0.95"
proof -
  have "Object_keys (map (\<lambda>(k, w). (k, Finite 1)) DEFAULT_WEIGHTS) = Object_keys DEFAULT_WEIGHTS"
    by (simp add: Object_keys_def DEFAULT_WEIGHTS_def)
  with DEFAULT_WEIGHTS_sum show ?thesis by blast
qed






subsection \<open>Cadence analyzer\<close>

lemma map_filter_valid: "List.map_filter getTime tss = valid_timestamps getTime tss"
  by (induction tss) (auto simp: List.map_filter_simps valid_timestamps_def split: option.splits)

lemma consecutive_days_nth:
  "consecutive_days s =
     map (\<lambda>i. real_of_int (s ! Suc i - s ! i) / real_of_int ms_per_day) [0..<length s - 1]"
proof (induction s rule: consecutive_days.induct)
  case (1 a b rest)
  have "[0..<length (a # b # rest) - 1] = 0 # map Suc [0..<length (b # rest) - 1]"
    by (simp add: upt_conv_Cons map_Suc_upt del: upt_Suc)
  then show ?case using 1 by (simp add: ms_per_day_def comp_def del: upt_Suc)
qed simp_all

lemma consecutive_days_spec: "consecutive_days (sort ts) = inter_arrival_days ts"
  by (simp add: consecutive_days_nth inter_arrival_days_def Let_def)

lemma length_consecutive_days: "length (consecutive_days s) = length s - 1"
  by (simp add: consecutive_days_nth)

lemma consecutive_days_nonneg: "sorted s \<Longrightarrow> \<forall>d \<in> set (consecutive_days s). 0 \<le> d"
  by (induction s rule: consecutive_days.induct) auto

lemma foldl_plus_sum_list: "foldl (\<lambda>s v. s + f v) (a::real) xs = a + sum_list (map f xs)"
  by (induction xs arbitrary: a) auto

lemma mean_nonneg: "\<forall>d \<in> set xs. 0 \<le> d \<Longrightarrow> 0 \<le> mean_of xs"
  by (simp add: mean_of_def sum_list_nonneg)

lemma score_of_cv:
  "(if cv < 0.2 then 0.0 else if cv > 0.5 then 1.0 else clamp01 (Finite ((cv - 0.2) / (0.5 - 0.2))))
     = cadence_score cv"
  by (auto simp: cadence_score_def max_def min_def field_simps)

lemma cadence_enough:
  assumes "4 \<le> length (valid_timestamps getTime tss)"
  shows "featureUpdateCadence getTime (Some tss) =
           cadence_score (coefficient_of_variation (inter_arrival_days (valid_timestamps getTime tss)))"
proof -
  let ?v = "valid_timestamps getTime tss"
  let ?xs = "inter_arrival_days ?v"
  have "length ?v \<le> length tss"
    unfolding map_filter_valid [symmetric] List.map_filter_def
    by (simp del: not_None_eq)
  then have len_tss: "\<not> length tss < 4" using assms by simp
  have len_sorted: "\<not> length (sort ?v) < 4" using assms by simp
  have len_xs: "length ?xs = length ?v - 1"
    by (simp add: consecutive_days_spec [symmetric] length_consecutive_days)
  then have xs_ne: "length ?xs \<noteq> 0" using assms by simp
  have nonneg: "\<forall>d \<in> set ?xs. 0 \<le> d"
    using consecutive_days_nonneg [of "sort ?v"] by (simp add: consecutive_days_spec)
  have mean: "foldl (\<lambda>s v. s + v) 0 ?xs / real (length ?xs) = mean_of ?xs"
    using foldl_plus_sum_list [of "\<lambda>v. v" 0 ?xs] by (simp add: mean_of_def)
  have var: "sqrt (foldl (\<lambda>s v. s + (v - mean_of ?xs)\<^sup>2) 0 ?xs / real (length ?xs)) = stddev_of ?xs"
    using foldl_plus_sum_list [of "\<lambda>v. (v - mean_of ?xs)\<^sup>2" 0 ?xs] by (simp add: stddev_of_def)
  have cv: "(if mean_of ?xs > 0 then stddev_of ?xs / mean_of ?xs else 0) = coefficient_of_variation ?xs"
    using mean_nonneg [OF nonneg] by (auto simp: coefficient_of_variation_def)
  show ?thesis
    unfolding featureUpdateCadence_def
    by (simp only: option.case len_tss len_sorted xs_ne if_False Let_def map_filter_valid
        consecutive_days_spec mean var cv score_of_cv)
qed

lemma cadence_few:
  assumes "length (valid_timestamps getTime tss) < 4"
  shows "featureUpdateCadence getTime (Some tss) = 0.5"
  using assms by (simp add: featureUpdateCadence_def map_filter_valid Let_def)

lemma cadence_weekly:
  assumes "map getTime tss = [Some t, Some (t + 7 * ms_per_day), Some (t + 14 * ms_per_day), Some (t + 21 * ms_per_day)]"
  shows "featureUpdateCadence getTime (Some tss) = 0"
proof -
  have v: "valid_timestamps getTime tss = [t, t + 7 * ms_per_day, t + 14 * ms_per_day, t + 21 * ms_per_day]"
    by (simp add: valid_timestamps_def assms)
  have s: "sort [t, t + 7 * ms_per_day, t + 14 * ms_per_day, t + 21 * ms_per_day]
           = [t, t + 7 * ms_per_day, t + 14 * ms_per_day, t + 21 * ms_per_day]"
    by (simp add: ms_per_day_def)
  have xs: "inter_arrival_days (valid_timestamps getTime tss) = [7, 7, 7]"
    unfolding inter_arrival_days_def v s Let_def
    by (simp add: ms_per_day_def upt_conv_Cons del: upt_Suc)
  have "coefficient_of_variation [7, 7, 7] = 0"
    by (simp add: coefficient_of_variation_def stddev_of_def mean_of_def)
  then have "cadence_score (coefficient_of_variation (inter_arrival_days (valid_timestamps getTime tss))) = 0"
    unfolding xs by (simp add: cadence_score_def)
  moreover have "4 \<le> length (valid_timestamps getTime tss)" by (simp add: v)
  ultimately show ?thesis
    using cadence_enough [of getTime tss] by simp
qed

text \<open>
  Claim C6: with no list, or with fewer than 4 valid timestamps, the cadence analyzer
  returns exactly 0.5; with 4 or more it returns the score of the coefficient of variation
  of the inter-arrival intervals (in days) of the ascending sort, which is 0 below 0.2,
  1 above 0.5 and the linear interpolation (CV - 0.2) / 0.3 in between; four timestamps
  spaced exactly 7 days apart score 0.
\<close>

theorem featureUpdateCadence_spec:
  "featureUpdateCadence getTime None = 0.5
   \<and> (length (valid_timestamps getTime tss) < 4 \<longrightarrow>
        featureUpdateCadence getTime (Some tss) = 0.5)
   \<and> (4 \<le> length (valid_timestamps getTime tss) \<longrightarrow>
        featureUpdateCadence getTime (Some tss) =
          cadence_score
            (coefficient_of_variation (inter_arrival_days (valid_timestamps getTime tss))))
   \<and> (cv < 0.2 \<longrightarrow> cadence_score cv = 0)
   \<and> (cv > 0.5 \<longrightarrow> cadence_score cv = 1)
   \<and> (0.2 \<le> cv \<and> cv \<le> 0.5 \<longrightarrow> cadence_score cv = (cv - 0.2) / 0.3)
   \<and> (map getTime tss =
          [Some t, Some (t + 7 * ms_per_day), Some (t + 14 * ms_per_day),
           Some (t + 21 * ms_per_day)] \<longrightarrow>
        featureUpdateCadence getTime (Some tss) = 0)"
proof -
  have "featureUpdateCadence getTime None = 0.5"
    by (simp add: featureUpdateCadence_def)
  moreover have "cv < 0.2 \<longrightarrow> cadence_score cv = 0"
    by (simp add: cadence_score_def)
  moreover have "cv > 0.5 \<longrightarrow> cadence_score cv = 1"
    by (simp add: cadence_score_def)
  moreover have "0.2 \<le> cv \<and> cv \<le> 0.5 \<longrightarrow> cadence_score cv = (cv - 0.2) / 0.3"
    by (auto simp: cadence_score_def max_def min_def field_simps)
  ultimately show ?thesis
    using cadence_few [of getTime tss] cadence_enough [of getTime tss]
      cadence_weekly [of getTime tss t]
    by blast
qed

theorem featureUpdateCadence_spec_witness:
  "featureUpdateCadence
     (map_of [(''w0'', 0), (''w1'', 604800000), (''w2'', 1209600000), (''w3'', 1814400000)])
     (Some [''w0'', ''w1'', ''w2'', ''w3'']) = 0
   \<and> featureUpdateCadence
     (map_of [(''w0'', 0), (''w1'', 604800000), (''w2'', 1209600000), (''w3'', 1814400000)])
     (Some [''w0'', ''w1'', ''bad'', ''w3'']) = 0.5"
proof -
  let ?g = "map_of [(''w0'', 0::int), (''w1'', 604800000), (''w2'', 1209600000), (''w3'', 1814400000)]"
  have "featureUpdateCadence ?g (Some [''w0'', ''w1'', ''w2'', ''w3'']) = 0"
    using featureUpdateCadence_spec [of ?g "[''w0'', ''w1'', ''w2'', ''w3'']" 0 0]
    by (simp add: ms_per_day_def)
  moreover have "featureUpdateCadence ?g (Some [''w0'', ''w1'', ''bad'', ''w3'']) = 0.5"
    using featureUpdateCadence_spec [of ?g "[''w0'', ''w1'', ''bad'', ''w3'']" 0 0]
    by (simp add: valid_timestamps_def)
  ultimately show ?thesis by simp
qed

subsection \<open>Fingerprint comparison\<close>

lemma digit_value_digit: "d < 10 \<Longrightarrow> digit_value (''0123456789'' ! d) = Some d"
proof -
  assume "d < 10"
  then have "d \<in> {0, 1, 2, 3, 4, 5, 6, 7, 8, 9}" by auto
  then show ?thesis by (auto simp: digit_value_def)
qed

lemma digit_not_space: "d < 10 \<Longrightarrow> \<not> is_space (''0123456789'' ! d)"
proof -
  assume "d < 10"
  then have "d \<in> {0, 1, 2, 3, 4, 5, 6, 7, 8, 9}" by auto
  then show ?thesis by (auto simp: is_space_def)
qed

lemma digit_not_sign:
  "d < 10 \<Longrightarrow> ''0123456789'' ! d \<notin> set ''-+xXoObB''"
proof -
  assume "d < 10"
  then have "d \<in> {0, 1, 2, 3, 4, 5, 6, 7, 8, 9}" by auto
  then show ?thesis by auto
qed

lemma parse_digits_append:
  "parse_digits r (xs @ ys) acc =
     (case parse_digits r xs acc of None \<Rightarrow> None | Some a \<Rightarrow> parse_digits r ys a)"
  by (induction xs arbitrary: acc) (auto split: option.splits)

lemma dec_digits_nonempty: "dec_digits n \<noteq> []"
  by (subst dec_digits.simps) simp

lemma parse_dec_digits: "parse_digits 10 (dec_digits n) 0 = Some n"
proof (induction n rule: dec_digits.induct)
  case (1 n)
  show ?case
  proof (cases "n < 10")
    case True
    then show ?thesis
      by (subst dec_digits.simps) (simp add: digit_value_digit)
  next
    case False
    then have "parse_digits 10 (dec_digits (n div 10)) 0 = Some (n div 10)" using 1 by simp
    then show ?thesis using False
      by (subst dec_digits.simps) (simp add: parse_digits_append digit_value_digit)
  qed
qed

lemma dec_digits_chars: "c \<in> set (dec_digits n) \<Longrightarrow> \<exists>d<10. c = ''0123456789'' ! d"
proof (induction n rule: dec_digits.induct)
  case (1 n)
  show ?case
  proof (cases "n < 10")
    case True
    then show ?thesis using "1.prems" by (subst (asm) dec_digits.simps) auto
  next
    case False
    have m: "n mod 10 < 10" by simp
    have "c \<in> set (dec_digits (n div 10)) \<or> c = ''0123456789'' ! (n mod 10)"
      using "1.prems" False by (subst (asm) dec_digits.simps) auto
    then show ?thesis using False "1.IH" m by blast
  qed
qed

lemma dec_digits_leading_zero: "dec_digits n = CHR ''0'' # cs \<Longrightarrow> cs = []"
proof (induction n arbitrary: cs rule: dec_digits.induct)
  case (1 n)
  show ?case
  proof (cases "n < 10")
    case True
    then show ?thesis using "1.prems" by (subst (asm) dec_digits.simps) auto
  next
    case False
    then have eq: "dec_digits n = dec_digits (n div 10) @ [''0123456789'' ! (n mod 10)]"
      by (subst dec_digits.simps) simp
    obtain c rest where cr: "dec_digits (n div 10) = c # rest"
      using dec_digits_nonempty by (cases "dec_digits (n div 10)") auto
    with eq "1.prems" have c: "c = CHR ''0''" by simp
    with cr 1 False have "rest = []" by simp
    with cr c have "dec_digits (n div 10) = ''0''" by simp
    then have "parse_digits 10 ''0'' 0 = Some (n div 10)"
      using parse_dec_digits [of "n div 10"] by simp
    then have "n div 10 = 0" by (simp add: digit_value_def)
    with False show ?thesis by simp
  qed
qed

lemma trim_dec_digits: "trim (dec_digits n) = dec_digits n"
proof -
  have ns: "\<forall>c \<in> set (dec_digits n). \<not> is_space c"
    using dec_digits_chars digit_not_space by blast
  then have "dropWhile is_space (dec_digits n) = dec_digits n"
    by (cases "dec_digits n") auto
  moreover have "dropWhile is_space (rev (dec_digits n)) = rev (dec_digits n)"
    using ns by (cases "rev (dec_digits n)") (auto simp: rev_eq_Cons_iff)
  ultimately show ?thesis by (simp add: trim_def)
qed

lemma BigInt_dec_digits: "BigInt (dec_digits n) = Some (int n)"
proof -
  obtain c cs where ccs: "dec_digits n = c # cs"
    using dec_digits_nonempty by (cases "dec_digits n") auto
  have c: "c \<noteq> CHR ''-''" "c \<noteq> CHR ''+''"
    using dec_digits_chars [of c n] digit_not_sign ccs by auto
  have zero: "c = CHR ''0'' \<Longrightarrow> cs = []"
    using dec_digits_leading_zero ccs by simp
  have p: "parse_nat 10 (c # cs) = Some n"
    using parse_dec_digits [of n] ccs by (simp add: parse_nat_def)
  have t: "trim (c # cs) = c # cs"
    using trim_dec_digits [of n] ccs by simp
  have "BigInt (c # cs) = map_option int (parse_nat 10 (c # cs))"
    unfolding BigInt_def t using c zero by (cases "c = CHR ''0''") simp_all
  then show ?thesis by (simp add: ccs p)
qed

lemma BigInt_fingerprint: "BigInt (fingerprint_string w) = Some (uint w)"
  by (simp add: fingerprint_string_def bigint_toString_def BigInt_dec_digits)

lemma upt_Suc_shift: "[0..<Suc k] = 0 # map Suc [0..<k]"
  by (simp add: upt_conv_Cons map_Suc_upt del: upt_Suc)

lemma count_set_bits_bounded:
  "0 \<le> n \<Longrightarrow> n < 2 ^ k \<Longrightarrow> count_set_bits n d = d + length (filter (bit n) [0..<k])"
proof (induction k arbitrary: n d)
  case 0
  then have "n = 0" by simp
  then show ?case by (subst count_set_bits.simps) simp
next
  case (Suc k)
  show ?case
  proof (cases "n = 0")
    case True
    then show ?thesis by (subst count_set_bits.simps) simp
  next
    case False
    then have pos: "0 < n" using Suc.prems by simp
    have half: "0 \<le> n div 2" "n div 2 < 2 ^ k" using Suc.prems by auto
    have low: "(n AND 1 \<noteq> 0) = bit n 0"
      by (simp add: and_one_eq bit_0 mod_2_eq_odd)
    have "length (filter (bit n) [0..<Suc k]) =
            (if bit n 0 then 1 else 0) + length (filter (bit (n div 2)) [0..<k])"
      unfolding upt_Suc_shift by (simp add: filter_map comp_def bit_Suc)
    then show ?thesis
      using pos Suc.IH [OF half] low
      by (subst count_set_bits.simps) (simp add: drop_bit_eq_div)
  qed
qed

lemma bit_uint_word: "bit (uint (w :: 64 word)) = bit w"
proof (rule ext)
  fix i
  have "bit w i \<Longrightarrow> i < 64" using bit_imp_le_length [of w i] by simp
  then show "bit (uint w) i = bit w i" by (auto simp: bit_uint_iff)
qed

lemma hamming_fingerprints:
  "simhashHammingDistance (fingerprint_string a) (fingerprint_string b) = popcount (a XOR b)"
proof -
  have x: "uint a XOR uint b = uint (a XOR b)" by (simp add: uint_xor)
  have "count_set_bits (uint (a XOR b)) 0 = 0 + length (filter (bit (uint (a XOR b))) [0..<64])"
    by (rule count_set_bits_bounded) (use uint_lt2p [of "a XOR b"] in simp_all)
  then show ?thesis
    by (simp add: simhashHammingDistance_def BigInt_fingerprint x popcount_def bit_uint_word)
qed

lemma popcount_0: "popcount 0 = 0"
  by (simp add: popcount_def)

lemma popcount_le: "popcount w \<le> 64"
  using length_filter_le [of "bit w" "[0..<64]"] by (simp add: popcount_def)

text \<open>
  Claim C8: for every pair of 64-bit fingerprints (stored as decimal strings) the distance
  computed is the number of set bits of their XOR, and the change is significant exactly
  when that distance is greater than the threshold (10 when none is given); two equal
  fingerprints have distance 0 and are not a significant change under the default
  threshold, nor under any threshold that is not negative.
\<close>

theorem hamming_is_popcount:
  "simhashHammingDistance (fingerprint_string a) (fingerprint_string b) = popcount (a XOR b)
   \<and> isSimhashChangeSignificant (fingerprint_string a) (fingerprint_string b) (Some threshold)
       = (real (popcount (a XOR b)) > threshold)
   \<and> isSimhashChangeSignificant (fingerprint_string a) (fingerprint_string b) None
       = (popcount (a XOR b) > 10)
   \<and> simhashHammingDistance (fingerprint_string a) (fingerprint_string a) = 0
   \<and> \<not> isSimhashChangeSignificant (fingerprint_string a) (fingerprint_string a) None
   \<and> (0 \<le> threshold \<longrightarrow>
        \<not> isSimhashChangeSignificant (fingerprint_string a) (fingerprint_string a) (Some threshold))"
  by (simp add: isSimhashChangeSignificant_def hamming_fingerprints popcount_0)

theorem hamming_is_popcount_witness:
  "simhashHammingDistance ''255'' ''0'' = 8
   \<and> \<not> isSimhashChangeSignificant ''255'' ''0'' None
   \<and> \<not> isSimhashChangeSignificant ''255'' ''255'' (Some 0)"
proof -
  have a: "fingerprint_string 255 = ''255''"
    by (simp add: fingerprint_string_def bigint_toString_def dec_digits.simps [of 255]
        dec_digits.simps [of 25] dec_digits.simps [of 2])
  have b: "fingerprint_string 0 = ''0''"
    by (simp add: fingerprint_string_def bigint_toString_def dec_digits.simps [of 0])
  have c: "popcount 255 = 8"
    by (simp add: popcount_def upt_conv_Cons del: upt_Suc)
  show ?thesis
    using hamming_is_popcount [of 255 0 0] by (simp add: a b c)
qed

text \<open>
  Claim C10: when at least one argument does not parse as an integer, the distance is the
  maximum 64 (no exception escapes), and under the default threshold of 10 the comparison
  is classified as a significant change.
\<close>

theorem malformed_fingerprint_max_distance:
  "BigInt simhash1 = None \<or> BigInt simhash2 = None \<longrightarrow>
     simhashHammingDistance simhash1 simhash2 = 64
     \<and> isSimhashChangeSignificant simhash1 simhash2 None"
  by (auto simp: simhashHammingDistance_def isSimhashChangeSignificant_def split: option.splits)

theorem malformed_fingerprint_max_distance_witness:
  "BigInt ''12ab'' = None
   \<and> simhashHammingDistance ''12ab'' ''42'' = 64
   \<and> isSimhashChangeSignificant ''42'' ''12ab'' None"
proof -
  have n: "BigInt ''12ab'' = None"
    by (simp add: BigInt_def trim_def is_space_def parse_nat_def digit_value_def)
  show ?thesis
    using n malformed_fingerprint_max_distance [of "''12ab''" "''42''"]
      malformed_fingerprint_max_distance [of "''42''" "''12ab''"]
    by simp
qed

subsection \<open>Simhash\<close>

lemma fold_bump_length:
  "length (fold (\<lambda>i w. w[i := w ! i + f i]) is (w :: int list)) = length w"
  by (induction "is" arbitrary: w) auto


lemma add_token_weights_length: "length (add_token_weights h w) = length w"
  by (simp add: add_token_weights_def fold_bump_length)


lemma fold_tokens_length:
  "length (fold (\<lambda>token w. add_token_weights (sha256 token) w) ts w) = length w"
  by (induction ts arbitrary: w) (auto simp: add_token_weights_length)
















subsection \<open>Metadata hash\<close>

lemma sorted_metadata_keys:
  "sort (Object_keys (metadata_object j)) =
     [''company_name'', ''first_published'', ''location'', ''requisition_id'', ''title'',
      ''updated_at'']"
  by (simp add: Object_keys_def metadata_object_def)

lemma metadata_string_explicit:
  "metadata_string j =
     ''{'' @ JSON_quote ''company_name'' @ '':'' @ JSON_value (company_name j)
     @ '','' @ JSON_quote ''first_published'' @ '':'' @ JSON_value (first_published j)
     @ '','' @ JSON_quote ''location'' @ '':'' @ JSON_value (location j)
     @ '','' @ JSON_quote ''requisition_id'' @ '':'' @ JSON_value (requisition_id j)
     @ '','' @ JSON_quote ''title'' @ '':'' @ JSON_value (title j)
     @ '','' @ JSON_quote ''updated_at'' @ '':'' @ JSON_value (updated_at j)
     @ ''}''"
  unfolding metadata_string_def Let_def sorted_metadata_keys
  by (simp add: JSON_stringify_def metadata_object_def js_get_def)

lemma length_digest_hex: "length (digest_hex h) = 64"
  by (simp add: digest_hex_def hex_byte_def length_concat comp_def sum_list_triv del: upt_Suc)

text \<open>
  Claim C4, amended: the metadata hash is the 64-digit hexadecimal SHA-256 digest of the
  JSON object with exactly six members, in sorted key order: company_name,
  first_published, location, requisition_id, title, updated_at; two jobs that agree on
  these six fields have the same metadata hash, whatever their other fields.
\<close>

theorem generateMetadataHash_six_fields:
  "generateMetadataHash sha256 j =
     digest_hex (sha256
       (''{'' @ JSON_quote ''company_name'' @ '':'' @ JSON_value (company_name j)
        @ '','' @ JSON_quote ''first_published'' @ '':'' @ JSON_value (first_published j)
        @ '','' @ JSON_quote ''location'' @ '':'' @ JSON_value (location j)
        @ '','' @ JSON_quote ''requisition_id'' @ '':'' @ JSON_value (requisition_id j)
        @ '','' @ JSON_quote ''title'' @ '':'' @ JSON_value (title j)
        @ '','' @ JSON_quote ''updated_at'' @ '':'' @ JSON_value (updated_at j)
        @ ''}''))
   \<and> length (generateMetadataHash sha256 j) = 64
   \<and> (title j = title j' \<and> company_name j = company_name j' \<and> location j = location j'
        \<and> first_published j = first_published j' \<and> updated_at j = updated_at j'
        \<and> requisition_id j = requisition_id j' \<longrightarrow>
      generateMetadataHash sha256 j = generateMetadataHash sha256 j')"
  by (simp add: generateMetadataHash_def metadata_string_explicit length_digest_hex)

text \<open>
  Claim C4, as the code has it. The specification lists five fields and says no other field
  influences the hash. Two jobs that agree on those five and differ in \<^verbatim>\<open>updated_at\<close>
  give different strings to the digest.
\<close>

theorem metadata_string_depends_on_updated_at:
  "title (job_a\<lparr>updated_at := Some ''2024-02-01T00:00:00Z''\<rparr>) = title job_a
   \<and> company_name (job_a\<lparr>updated_at := Some ''2024-02-01T00:00:00Z''\<rparr>) = company_name job_a
   \<and> location (job_a\<lparr>updated_at := Some ''2024-02-01T00:00:00Z''\<rparr>) = location job_a
   \<and> first_published (job_a\<lparr>updated_at := Some ''2024-02-01T00:00:00Z''\<rparr>) = first_published job_a
   \<and> requisition_id (job_a\<lparr>updated_at := Some ''2024-02-01T00:00:00Z''\<rparr>) = requisition_id job_a
   \<and> metadata_string (job_a\<lparr>updated_at := Some ''2024-02-01T00:00:00Z''\<rparr>) \<noteq> metadata_string job_a"
  by (simp add: metadata_string_explicit job_a_def JSON_value_def JSON_quote_def json_escape_def)

theorem generateMetadataHash_six_fields_witness:
  "\<forall>sha256. generateMetadataHash sha256 (job_a\<lparr>content := Some ''Other text''\<rparr>)
     = generateMetadataHash sha256 job_a"
proof
  fix sha256 :: "string \<Rightarrow> 256 word"
  let ?j = "job_a\<lparr>content := Some ''Other text''\<rparr>"
  have same: "title ?j = title job_a \<and> company_name ?j = company_name job_a
      \<and> location ?j = location job_a \<and> first_published ?j = first_published job_a
      \<and> updated_at ?j = updated_at job_a \<and> requisition_id ?j = requisition_id job_a"
    by simp
  from generateMetadataHash_six_fields [of sha256 ?j job_a] same
  show "generateMetadataHash sha256 ?j = generateMetadataHash sha256 job_a" by blast
qed

subsection \<open>Admission controller\<close>

lemma set_request_lock_granted_iff:
  "fst (set_request_lock f userId tbl) = Inr True \<longleftrightarrow>
     \<not> lock_update_fails f \<and> \<not> decrement_fails f
     \<and> (\<exists>row. tbl userId = Some row \<and> is_available row)"
  by (auto simp: set_request_lock_def Let_def split: option.splits)

lemma set_request_lock_granted_state:
  "fst (set_request_lock f userId tbl) = Inr True \<Longrightarrow> tbl userId = Some row \<Longrightarrow>
   snd (set_request_lock f userId tbl) =
     tbl(userId \<mapsto> \<lparr> is_available = False, tokens_remaining = tokens_remaining row - 1 \<rparr>)"
  by (auto simp: set_request_lock_def Let_def split: option.splits if_splits)

lemma set_request_lock_tokens:
  "snd (set_request_lock f userId tbl) u = Some row' \<Longrightarrow>
   \<exists>row. tbl u = Some row \<and>
     (tokens_remaining row' = tokens_remaining row
      \<or> (u = userId \<and> is_available row \<and> tokens_remaining row' = tokens_remaining row - 1))"
  by (auto simp: set_request_lock_def Let_def split: option.splits if_splits)

lemma set_request_lock_invariant:
  assumes "tokens_nonneg tbl"
    and "\<forall>row. tbl userId = Some row \<and> is_available row \<longrightarrow> 0 < tokens_remaining row"
  shows "tokens_nonneg (snd (set_request_lock f userId tbl))"
  unfolding tokens_nonneg_def
proof (intro allI impI)
  fix u row'
  assume "snd (set_request_lock f userId tbl) u = Some row'"
  from set_request_lock_tokens [OF this] obtain row where
    r: "tbl u = Some row"
       "tokens_remaining row' = tokens_remaining row
        \<or> (u = userId \<and> is_available row \<and> tokens_remaining row' = tokens_remaining row - 1)"
    by blast
  have "0 \<le> tokens_remaining row" using assms(1) r(1) by (auto simp: tokens_nonneg_def)
  moreover have "u = userId \<and> is_available row \<longrightarrow> 0 < tokens_remaining row"
    using assms(2) r(1) by auto
  ultimately show "0 \<le> tokens_remaining row'" using r(2) by auto
qed

lemma request_lock_and_tokens_invariant:
  "tokens_nonneg tbl \<Longrightarrow> tokens_nonneg (snd (request_lock_and_tokens f userId tbl))"
  by (auto simp: request_lock_and_tokens_def tokens_nonneg_def split: option.splits if_splits)

lemma release_request_lock_invariant:
  "tokens_nonneg tbl \<Longrightarrow> tokens_nonneg (release_request_lock f userId tbl)"
  by (auto simp: release_request_lock_def tokens_nonneg_def split: option.splits if_splits)

text \<open>
  Claim C1, as the code has it. The specification says a user with no tokens left is denied and
  the token count never goes below 0. \<^verbatim>\<open>set_request_lock\<close> does not read the token
  count before granting: an available row with 0 tokens is granted and left with -1.
\<close>

theorem set_request_lock_ignores_tokens:
  "set_request_lock no_lock_faults ''user-1''
     [''user-1'' \<mapsto> \<lparr> is_available = True, tokens_remaining = 0 \<rparr>]
   = (Inr True, [''user-1'' \<mapsto> \<lparr> is_available = False, tokens_remaining = - 1 \<rparr>])"
  by (simp add: set_request_lock_def no_lock_faults_def)

text \<open>
  Claim C1, amended: \<^verbatim>\<open>set_request_lock\<close> grants exactly when the user's row exists with
  \<^verbatim>\<open>is_available\<close> true and neither update fails; on a grant the row is left
  unavailable with one token less; so it keeps every token count at or above 0 provided
  the user's available row had a positive count, and \<^verbatim>\<open>request_lock_and_tokens\<close> and
  \<^verbatim>\<open>release_request_lock\<close> always keep it.
\<close>

theorem set_request_lock_grant:
  "(fst (set_request_lock f userId tbl) = Inr True \<longleftrightarrow>
      \<not> lock_update_fails f \<and> \<not> decrement_fails f
      \<and> (\<exists>row. tbl userId = Some row \<and> is_available row))
   \<and> (fst (set_request_lock f userId tbl) = Inr True \<and> tbl userId = Some row \<longrightarrow>
        snd (set_request_lock f userId tbl) =
          tbl(userId \<mapsto>
            \<lparr> is_available = False, tokens_remaining = tokens_remaining row - 1 \<rparr>))
   \<and> (tokens_nonneg tbl
        \<and> (\<forall>row. tbl userId = Some row \<and> is_available row \<longrightarrow> 0 < tokens_remaining row) \<longrightarrow>
        tokens_nonneg (snd (set_request_lock f userId tbl)))
   \<and> (tokens_nonneg tbl \<longrightarrow>
        tokens_nonneg (snd (request_lock_and_tokens f userId tbl))
        \<and> tokens_nonneg (release_request_lock f userId tbl))"
  using set_request_lock_granted_iff [of f userId tbl]
    set_request_lock_granted_state [of f userId tbl row]
    set_request_lock_invariant [of tbl userId f]
    request_lock_and_tokens_invariant [of tbl f userId]
    release_request_lock_invariant [of tbl f userId]
  by blast

theorem set_request_lock_grant_witness:
  "set_request_lock no_lock_faults ''user-1''
     [''user-1'' \<mapsto> \<lparr> is_available = True, tokens_remaining = 3 \<rparr>]
   = (Inr True, [''user-1'' \<mapsto> \<lparr> is_available = False, tokens_remaining = 2 \<rparr>])
   \<and> tokens_nonneg (snd (set_request_lock no_lock_faults ''user-1''
        [''user-1'' \<mapsto> \<lparr> is_available = True, tokens_remaining = 3 \<rparr>]))
   \<and> fst (set_request_lock no_lock_faults ''user-1''
        [''user-1'' \<mapsto> \<lparr> is_available = False, tokens_remaining = 3 \<rparr>]) \<noteq> Inr True"
proof -
  let ?tbl = "[''user-1'' \<mapsto> \<lparr> is_available = True, tokens_remaining = 3 \<rparr>]"
  let ?busy = "[''user-1'' \<mapsto> \<lparr> is_available = False, tokens_remaining = 3 \<rparr>]"
  have inv: "tokens_nonneg ?tbl" by (simp add: tokens_nonneg_def)
  have pos: "\<forall>row. ?tbl ''user-1'' = Some row \<and> is_available row \<longrightarrow> 0 < tokens_remaining row"
    by simp
  have granted: "fst (set_request_lock no_lock_faults ''user-1'' ?tbl) = Inr True"
    using set_request_lock_grant [of no_lock_faults "''user-1''" ?tbl]
    by (simp add: no_lock_faults_def)
  have state: "snd (set_request_lock no_lock_faults ''user-1'' ?tbl)
      = [''user-1'' \<mapsto> \<lparr> is_available = False, tokens_remaining = 2 \<rparr>]"
    using set_request_lock_grant
      [of no_lock_faults "''user-1''" ?tbl "\<lparr> is_available = True, tokens_remaining = 3 \<rparr>"]
      granted by simp
  have post: "tokens_nonneg (snd (set_request_lock no_lock_faults ''user-1'' ?tbl))"
    using set_request_lock_grant [of no_lock_faults "''user-1''" ?tbl] inv pos by blast
  have denied: "fst (set_request_lock no_lock_faults ''user-1'' ?busy) \<noteq> Inr True"
    using set_request_lock_grant [of no_lock_faults "''user-1''" ?busy] by simp
  from granted state have "set_request_lock no_lock_faults ''user-1'' ?tbl
      = (Inr True, [''user-1'' \<mapsto> \<lparr> is_available = False, tokens_remaining = 2 \<rparr>])"
    by (simp add: prod_eq_iff)
  with post denied show ?thesis by blast
qed

subsection \<open>Job cache and snapshots\<close>

lemma filter_unique_id:
  "distinct (map job_row_id rows) \<Longrightarrow> e \<in> set rows \<Longrightarrow>
   filter (\<lambda>r. job_row_id r = job_row_id e) rows = [e]"
proof (induction rows)
  case Nil
  then show ?case by simp
next
  case (Cons r rows)
  show ?case
  proof (cases "r = e")
    case True
    have "job_row_id e \<notin> job_row_id ` set rows"
      using Cons.prems(1) True by simp
    then have "\<forall>x \<in> set rows. job_row_id x \<noteq> job_row_id e"
      by (metis imageI)
    then have "filter (\<lambda>r. job_row_id r = job_row_id e) rows = []"
      by (simp add: filter_empty_conv)
    then show ?thesis using True by simp
  next
    case False
    then have "e \<in> set rows" using Cons.prems(2) by simp
    moreover have "job_row_id r \<notin> job_row_id ` set rows"
      using Cons.prems(1) by simp
    then have "job_row_id r \<noteq> job_row_id e"
      using \<open>e \<in> set rows\<close> by (metis imageI)
    moreover have "distinct (map job_row_id rows)" using Cons.prems(1) by simp
    ultimately show ?thesis using Cons.IH by simp
  qed
qed

lemma getJobByCompositeKey_Some:
  "getJobByCompositeKey env db a = Some e \<Longrightarrow> filter (same_key a) (jobs db) = [e]"
  by (auto simp: getJobByCompositeKey_def split: if_splits list.splits)

lemma existing_row:
  assumes "getJobByCompositeKey env db a = Some e"
  shows "e \<in> set (jobs db)" and "same_key a e"
proof -
  have f: "filter (same_key a) (jobs db) = [e]"
    using assms by (rule getJobByCompositeKey_Some)
  then have "e \<in> set (filter (same_key a) (jobs db))" by simp
  then show "e \<in> set (jobs db)" and "same_key a e" by simp_all
qed




lemma insertIntoJobTable_frame:
  "job_updates (snd (insertIntoJobTable env a db)) = job_updates db"
  "job_snapshots (snd (insertIntoJobTable env a db)) = job_snapshots db"
  by (auto simp: insertIntoJobTable_def split: list.splits)




lemma filter_same_key_map:
  "\<forall>r. job (g r) = job r \<Longrightarrow> filter (same_key a) (map g rows) = map g (filter (same_key a) rows)"
  by (induction rows) (auto simp: same_key_def)



lemma find_of_filter: "filter P xs = [x] \<Longrightarrow> find P xs = Some x"
  by (induction xs) (auto split: if_splits)

lemma filter_id_map:
  "\<forall>r. job_row_id (g r) = job_row_id r \<Longrightarrow>
   filter (\<lambda>r. job_row_id r = j) (map g rows) = map g (filter (\<lambda>r. job_row_id r = j) rows)"
  by (induction rows) auto

lemma job_by_id_map:
  assumes "filter (\<lambda>r. job_row_id r = j) (jobs db) = [e]"
    and "\<forall>r. job_row_id (g r) = job_row_id r"
    and "jobs db' = map g (jobs db)"
  shows "job_by_id db' j = Some (g e)"
proof -
  have "filter (\<lambda>r. job_row_id r = j) (jobs db') = [g e]"
    using assms by (simp add: filter_id_map)
  then show ?thesis unfolding job_by_id_def by (rule find_of_filter)
qed

lemma timeline_step:
  assumes nf: "env_faults env = no_faults"
    and one: "filter (\<lambda>r. job_row_id r = job_row_id e) (jobs db) = [e]"
  shows "InsertToJobUpdatesTable env (job_row_id e) a db =
     (if falsy (updated_at a) then (False, db)
      else if falsy (updated_at (job e))
             \<or> js_gt (Option.bind (updated_at a) (env_getTime env))
                  (Option.bind (updated_at (job e)) (env_getTime env))
        then (True, set_last_seen (job_row_id e) (env_now_iso env)
                      (add_update (job_row_id e) (updated_at a) db))
      else (False, set_last_seen (job_row_id e) (env_now_iso env) db))"
  using nf one
  by (simp add: InsertToJobUpdatesTable_def Let_def no_faults_def insert_job_update_def
      touch_last_seen_def add_update_def)

lemma ingest_existing_updates:
  "job_updates (snd (analyzeJob_ingest env (Some e) a db))
     = job_updates (snd (InsertToJobUpdatesTable env (job_row_id e) a db))"
proof -
  let ?db1 = "snd (InsertToJobUpdatesTable env (job_row_id e) a db)"
  obtain r db2 where u: "insertIntoJobTable env a ?db1 = (r, db2)"
    by (cases "insertIntoJobTable env a ?db1")
  have f: "job_updates db2 = job_updates ?db1"
    using insertIntoJobTable_frame(1) [of env a ?db1] u by simp
  show ?thesis
    unfolding analyzeJob_ingest_def
    by (simp add: u f Let_def createJobSnapshot_def split: option.splits)
qed




lemma analyzeJob_store_ingest:
  "ats_provider a = ''greenhouse'' \<Longrightarrow>
   (case getJobByCompositeKey env db a of
      None \<Rightarrow> True
    | Some e \<Rightarrow> \<not> (isJobFresh env e \<and> job_row_id e \<in> set (job_features db))) \<Longrightarrow>
   analyzeJob_store env a db = analyzeJob_ingest env (getJobByCompositeKey env db a) a db"
  by (auto simp: analyzeJob_store_def Let_def split: option.splits)

lemma ingest_existing_jobs:
  "jobs (snd (analyzeJob_ingest env (Some e) a db))
     = jobs (snd (insertIntoJobTable env a (snd (InsertToJobUpdatesTable env (job_row_id e) a db))))"
proof -
  let ?db1 = "snd (InsertToJobUpdatesTable env (job_row_id e) a db)"
  obtain r db2 where u: "insertIntoJobTable env a ?db1 = (r, db2)"
    by (cases "insertIntoJobTable env a ?db1")
  show ?thesis
    unfolding analyzeJob_ingest_def
    by (simp add: u Let_def createJobSnapshot_def split: option.splits)
qed

lemma upsert_jobs_existing:
  assumes nf: "env_faults env = no_faults"
    and "filter (same_key a) (jobs db1) \<noteq> []"
  shows "jobs (snd (insertIntoJobTable env a db1))
     = map (\<lambda>x. if same_key a x then x\<lparr>job := a, is_active := True\<rparr> else x) (jobs db1)"
  using assms by (simp add: insertIntoJobTable_def no_faults_def split: list.splits)

lemma reingest_newer:
  assumes nf: "env_faults env = no_faults"
    and wf: "distinct (map job_row_id (jobs db))"
    and ex: "getJobByCompositeKey env db a = Some e"
    and inc: "\<not> falsy (updated_at a)"
    and ins: "falsy (updated_at (job e))
              \<or> js_gt (Option.bind (updated_at a) (env_getTime env))
                   (Option.bind (updated_at (job e)) (env_getTime env))"
  shows "fst (InsertToJobUpdatesTable env (job_row_id e) a db)"
    and "job_updates (snd (InsertToJobUpdatesTable env (job_row_id e) a db))
           = job_updates db
               @ [\<lparr> update_job_id = job_row_id e, update_ats_updated_at = updated_at a \<rparr>]"
    and "map_option (\<lambda>r. updated_at (job r))
           (job_by_id (snd (InsertToJobUpdatesTable env (job_row_id e) a db)) (job_row_id e))
         = Some (updated_at (job e))"
    and "map_option (\<lambda>r. updated_at (job r))
           (job_by_id (snd (analyzeJob_ingest env (Some e) a db)) (job_row_id e))
         = Some (updated_at a)"
proof -
  let ?touch = "\<lambda>r. if job_row_id r = job_row_id e
                      then r\<lparr>last_seen := Some (env_now_iso env)\<rparr> else r"
  let ?upd = "\<lambda>x. if same_key a x then x\<lparr>job := a, is_active := True\<rparr> else x"
  let ?db1 = "snd (InsertToJobUpdatesTable env (job_row_id e) a db)"
  have key: "filter (same_key a) (jobs db) = [e]"
    using ex by (rule getJobByCompositeKey_Some)
  have mem: "e \<in> set (jobs db)" and sk: "same_key a e"
    using existing_row [OF ex] by simp_all
  have one: "filter (\<lambda>r. job_row_id r = job_row_id e) (jobs db) = [e]"
    using wf mem by (rule filter_unique_id)
  have step: "InsertToJobUpdatesTable env (job_row_id e) a db =
      (True, set_last_seen (job_row_id e) (env_now_iso env)
               (add_update (job_row_id e) (updated_at a) db))"
    using timeline_step [OF nf one, of a] inc ins by auto
  show "fst (InsertToJobUpdatesTable env (job_row_id e) a db)"
    by (simp add: step)
  show "job_updates ?db1
           = job_updates db
               @ [\<lparr> update_job_id = job_row_id e, update_ats_updated_at = updated_at a \<rparr>]"
    by (simp add: step set_last_seen_def add_update_def)
  have j1: "jobs ?db1 = map ?touch (jobs db)"
    by (simp add: step set_last_seen_def add_update_def)
  have "job_by_id ?db1 (job_row_id e) = Some (?touch e)"
    by (rule job_by_id_map [OF one _ j1]) simp
  then show "map_option (\<lambda>r. updated_at (job r)) (job_by_id ?db1 (job_row_id e))
         = Some (updated_at (job e))"
    by simp
  have k1: "filter (same_key a) (jobs ?db1) = [?touch e]"
    unfolding j1 using key by (subst filter_same_key_map) simp_all
  have j2: "jobs (snd (insertIntoJobTable env a ?db1)) = map ?upd (jobs ?db1)"
    by (rule upsert_jobs_existing [OF nf]) (simp add: k1)
  have jf: "jobs (snd (analyzeJob_ingest env (Some e) a db)) = map (?upd \<circ> ?touch) (jobs db)"
    unfolding ingest_existing_jobs j2 j1 by simp
  have "job_by_id (snd (analyzeJob_ingest env (Some e) a db)) (job_row_id e)
          = Some ((?upd \<circ> ?touch) e)"
    by (rule job_by_id_map [OF one _ jf]) simp
  moreover have "same_key a (?touch e)" using sk by (simp add: same_key_def)
  ultimately show "map_option (\<lambda>r. updated_at (job r))
           (job_by_id (snd (analyzeJob_ingest env (Some e) a db)) (job_row_id e))
         = Some (updated_at a)"
    by simp
qed

lemma reingest_not_newer:
  assumes nf: "env_faults env = no_faults"
    and wf: "distinct (map job_row_id (jobs db))"
    and ex: "getJobByCompositeKey env db a = Some e"
    and no: "falsy (updated_at a)
             \<or> (\<not> falsy (updated_at (job e))
                \<and> \<not> js_gt (Option.bind (updated_at a) (env_getTime env))
                      (Option.bind (updated_at (job e)) (env_getTime env)))"
  shows "\<not> fst (InsertToJobUpdatesTable env (job_row_id e) a db)"
    and "job_updates (snd (analyzeJob_ingest env (Some e) a db)) = job_updates db"
proof -
  have mem: "e \<in> set (jobs db)"
    using existing_row [OF ex] by simp
  have one: "filter (\<lambda>r. job_row_id r = job_row_id e) (jobs db) = [e]"
    using wf mem by (rule filter_unique_id)
  have step: "InsertToJobUpdatesTable env (job_row_id e) a db = (False, db)
      \<or> InsertToJobUpdatesTable env (job_row_id e) a db
          = (False, set_last_seen (job_row_id e) (env_now_iso env) db)"
    using timeline_step [OF nf one, of a] no by auto
  then show "\<not> fst (InsertToJobUpdatesTable env (job_row_id e) a db)" by auto
  from step have "job_updates (snd (InsertToJobUpdatesTable env (job_row_id e) a db)) = job_updates db"
    by (auto simp: set_last_seen_def)
  then show "job_updates (snd (analyzeJob_ingest env (Some e) a db)) = job_updates db"
    by (simp add: ingest_existing_updates)
qed

lemma example_existing:
  "getJobByCompositeKey example_env example_db job_a_updated = Some example_row"
  "getJobByCompositeKey example_env example_db (job_a\<lparr>content := c\<rparr>) = Some example_row"
  by (simp_all add: getJobByCompositeKey_def example_env_def example_db_def example_row_def
      no_faults_def same_key_def job_a_updated_def job_a_def)


text \<open>
  Claim C3, as the code has it. The specification says the row inserted on a re-ingest records the
  prior \<^verbatim>\<open>updated_at\<close>, not the incoming one. A job stored with the value of 1 January
  and re-ingested with the value of 1 February gets a row that records 1 February.
\<close>

theorem reingest_records_incoming_value:
  "job_updates (snd (analyzeJob_ingest example_env (Some example_row) job_a_updated example_db))
     = job_updates example_db
         @ [\<lparr> update_job_id = ''job-1'',
               update_ats_updated_at = Some ''2024-02-01T00:00:00Z'' \<rparr>]
   \<and> updated_at (job example_row) = Some ''2024-01-01T00:00:00Z''"
proof -
  have nf: "env_faults example_env = no_faults" by (simp add: example_env_def)
  have wf: "distinct (map job_row_id (jobs example_db))" by (simp add: example_db_def)
  have inc: "\<not> falsy (updated_at job_a_updated)" by (simp add: falsy_def job_a_updated_def)
  have newer: "falsy (updated_at (job example_row))
     \<or> js_gt (Option.bind (updated_at job_a_updated) (env_getTime example_env))
          (Option.bind (updated_at (job example_row)) (env_getTime example_env))"
    by (simp add: js_gt_def job_a_updated_def example_row_def job_a_def example_env_def)
  have "job_updates (snd (InsertToJobUpdatesTable example_env (job_row_id example_row)
                            job_a_updated example_db))
          = job_updates example_db
              @ [\<lparr> update_job_id = job_row_id example_row,
                    update_ats_updated_at = updated_at job_a_updated \<rparr>]"
    by (rule reingest_newer(2) [OF nf wf example_existing(1) inc newer])
  then show ?thesis
    by (simp add: ingest_existing_updates example_row_def job_a_updated_def job_a_def)
qed

text \<open>
  Claim C3, amended: when every storage call succeeds and an existing job is re-ingested
  with an incoming \<^verbatim>\<open>updated_at\<close> strictly newer than the stored one, exactly one row
  is appended to \<^verbatim>\<open>job_updates\<close>; it records the incoming value; it is appended by
  \<^verbatim>\<open>InsertToJobUpdatesTable\<close>, after which the job's row still holds the prior value,
  and only the later upsert overwrites it with the incoming one. When the incoming value
  is absent, or both are present and the incoming one is not strictly newer, no row is
  appended. A re-ingest is what \<^verbatim>\<open>analyzeJob\<close> does for a Greenhouse job that is found
  and is not a cache hit.
\<close>

theorem reingest_timeline:
  assumes nf: "env_faults env = no_faults"
    and wf: "distinct (map job_row_id (jobs db))"
    and ex: "getJobByCompositeKey env db a = Some e"
  shows
    "(\<not> falsy (updated_at a) \<and> \<not> falsy (updated_at (job e))
        \<and> js_gt (Option.bind (updated_at a) (env_getTime env))
             (Option.bind (updated_at (job e)) (env_getTime env)) \<longrightarrow>
        fst (InsertToJobUpdatesTable env (job_row_id e) a db)
        \<and> job_updates (snd (InsertToJobUpdatesTable env (job_row_id e) a db))
            = job_updates db
                @ [\<lparr> update_job_id = job_row_id e, update_ats_updated_at = updated_at a \<rparr>]
        \<and> map_option (\<lambda>r. updated_at (job r))
             (job_by_id (snd (InsertToJobUpdatesTable env (job_row_id e) a db)) (job_row_id e))
            = Some (updated_at (job e))
        \<and> job_updates (snd (analyzeJob_ingest env (Some e) a db))
            = job_updates (snd (InsertToJobUpdatesTable env (job_row_id e) a db))
        \<and> map_option (\<lambda>r. updated_at (job r))
             (job_by_id (snd (analyzeJob_ingest env (Some e) a db)) (job_row_id e))
            = Some (updated_at a))
     \<and> (falsy (updated_at a)
          \<or> (\<not> falsy (updated_at (job e))
              \<and> \<not> js_gt (Option.bind (updated_at a) (env_getTime env))
                    (Option.bind (updated_at (job e)) (env_getTime env))) \<longrightarrow>
        \<not> fst (InsertToJobUpdatesTable env (job_row_id e) a db)
        \<and> job_updates (snd (analyzeJob_ingest env (Some e) a db)) = job_updates db)
     \<and> (ats_provider a = ''greenhouse''
          \<and> \<not> (isJobFresh env e \<and> job_row_id e \<in> set (job_features db)) \<longrightarrow>
        analyzeJob_store env a db = analyzeJob_ingest env (Some e) a db)"
proof (intro conjI impI)
  assume h: "\<not> falsy (updated_at a) \<and> \<not> falsy (updated_at (job e))
        \<and> js_gt (Option.bind (updated_at a) (env_getTime env))
             (Option.bind (updated_at (job e)) (env_getTime env))"
  then have inc: "\<not> falsy (updated_at a)"
    and ins: "falsy (updated_at (job e))
              \<or> js_gt (Option.bind (updated_at a) (env_getTime env))
                   (Option.bind (updated_at (job e)) (env_getTime env))"
    by simp_all
  show "fst (InsertToJobUpdatesTable env (job_row_id e) a db)"
    by (rule reingest_newer(1) [OF nf wf ex inc ins])
  show "job_updates (snd (InsertToJobUpdatesTable env (job_row_id e) a db))
            = job_updates db
                @ [\<lparr> update_job_id = job_row_id e, update_ats_updated_at = updated_at a \<rparr>]"
    by (rule reingest_newer(2) [OF nf wf ex inc ins])
  show "map_option (\<lambda>r. updated_at (job r))
             (job_by_id (snd (InsertToJobUpdatesTable env (job_row_id e) a db)) (job_row_id e))
            = Some (updated_at (job e))"
    by (rule reingest_newer(3) [OF nf wf ex inc ins])
  show "job_updates (snd (analyzeJob_ingest env (Some e) a db))
            = job_updates (snd (InsertToJobUpdatesTable env (job_row_id e) a db))"
    by (rule ingest_existing_updates)
  show "map_option (\<lambda>r. updated_at (job r))
             (job_by_id (snd (analyzeJob_ingest env (Some e) a db)) (job_row_id e))
            = Some (updated_at a)"
    by (rule reingest_newer(4) [OF nf wf ex inc ins])
next
  assume no: "falsy (updated_at a)
          \<or> (\<not> falsy (updated_at (job e))
              \<and> \<not> js_gt (Option.bind (updated_at a) (env_getTime env))
                    (Option.bind (updated_at (job e)) (env_getTime env)))"
  show "\<not> fst (InsertToJobUpdatesTable env (job_row_id e) a db)"
    by (rule reingest_not_newer(1) [OF nf wf ex no])
  show "job_updates (snd (analyzeJob_ingest env (Some e) a db)) = job_updates db"
    by (rule reingest_not_newer(2) [OF nf wf ex no])
next
  assume "ats_provider a = ''greenhouse''
          \<and> \<not> (isJobFresh env e \<and> job_row_id e \<in> set (job_features db))"
  then show "analyzeJob_store env a db = analyzeJob_ingest env (Some e) a db"
    using analyzeJob_store_ingest [of a env db] ex by simp
qed

theorem reingest_timeline_witness:
  "job_updates (snd (analyzeJob_ingest example_env (Some example_row) job_a_updated example_db))
     = [\<lparr> update_job_id = ''job-1'', update_ats_updated_at = Some ''2024-01-01T00:00:00Z'' \<rparr>,
        \<lparr> update_job_id = ''job-1'', update_ats_updated_at = Some ''2024-02-01T00:00:00Z'' \<rparr>]
   \<and> map_option (\<lambda>r. updated_at (job r))
        (job_by_id (snd (InsertToJobUpdatesTable example_env ''job-1'' job_a_updated example_db))
           ''job-1'')
       = Some (Some ''2024-01-01T00:00:00Z'')
   \<and> map_option (\<lambda>r. updated_at (job r))
        (job_by_id (snd (analyzeJob_ingest example_env (Some example_row) job_a_updated example_db))
           ''job-1'')
       = Some (Some ''2024-02-01T00:00:00Z'')
   \<and> job_updates (snd (analyzeJob_ingest example_env (Some example_row)
                          (job_a\<lparr>content := Some ''Other text''\<rparr>) example_db))
     = job_updates example_db"
proof -
  have nf: "env_faults example_env = no_faults" by (simp add: example_env_def)
  have wf: "distinct (map job_row_id (jobs example_db))" by (simp add: example_db_def)
  have id1: "job_row_id example_row = ''job-1''" by (simp add: example_row_def)
  have newer: "\<not> falsy (updated_at job_a_updated) \<and> \<not> falsy (updated_at (job example_row))
     \<and> js_gt (Option.bind (updated_at job_a_updated) (env_getTime example_env))
          (Option.bind (updated_at (job example_row)) (env_getTime example_env))"
    by (simp add: falsy_def js_gt_def job_a_updated_def example_row_def job_a_def example_env_def)
  have same: "\<not> falsy (updated_at (job example_row))
     \<and> \<not> js_gt (Option.bind (updated_at (job_a\<lparr>content := Some ''Other text''\<rparr>))
                  (env_getTime example_env))
            (Option.bind (updated_at (job example_row)) (env_getTime example_env))"
    by (simp add: falsy_def js_gt_def example_row_def job_a_def example_env_def)
  have vals: "updated_at job_a_updated = Some ''2024-02-01T00:00:00Z''"
    "updated_at (job example_row) = Some ''2024-01-01T00:00:00Z''"
    "job_updates example_db
       = [\<lparr> update_job_id = ''job-1'', update_ats_updated_at = Some ''2024-01-01T00:00:00Z'' \<rparr>]"
    by (simp_all add: job_a_updated_def example_row_def job_a_def example_db_def)
  note a = reingest_timeline [OF nf wf example_existing(1)]
  note b = reingest_timeline [OF nf wf example_existing(2) [of "Some ''Other text''"]]
  from a newer b same show ?thesis
    unfolding id1 vals by simp
qed



end
